theory Spec2Isabelle
  imports Complex_Main "HOL-Library.Multiset"
begin

section \<open>Strings\<close>

text \<open>
  Python \<open>str\<close> values are modelled by HOL strings whose characters stand for the code
  points U+0000 to U+00FF; \<open>length\<close> counts code points as Python's \<open>len\<close> does.
  \<open>is_space\<close> is \<open>str.isspace\<close> on that range (what \<open>str.split()\<close> and
  \<open>str.strip()\<close> treat as whitespace) and \<open>lower_char\<close> is \<open>str.lower\<close> on it.
\<close>

definition is_space :: "char \<Rightarrow> bool" where
  "is_space c =
     (let n = (of_char c :: nat)
      in (9 \<le> n \<and> n \<le> 13) \<or> (28 \<le> n \<and> n \<le> 32) \<or> n = 133 \<or> n = 160)"

definition lower_char :: "char \<Rightarrow> char" where
  "lower_char c =
     (let n = (of_char c :: nat)
      in if (65 \<le> n \<and> n \<le> 90) \<or> (192 \<le> n \<and> n \<le> 222 \<and> n \<noteq> 215)
         then char_of (n + 32) else c)"

definition str_lower :: "string \<Rightarrow> string" where
  "str_lower s = map lower_char s"

definition str_strip :: "string \<Rightarrow> string" where
  "str_strip s = rev (dropWhile is_space (rev (dropWhile is_space s)))"

text \<open>\<open>old.replace(a, b)\<close> for one-character strings \<open>a\<close> and \<open>b\<close>.\<close>

definition str_replace :: "char \<Rightarrow> char \<Rightarrow> string \<Rightarrow> string" where
  "str_replace a b s = map (\<lambda>c. if c = a then b else c) s"

text \<open>
  \<open>s.split()\<close> with no separator: the maximal runs of non-whitespace characters.
  The first argument is the word read so far.
\<close>

fun split_from :: "string \<Rightarrow> string \<Rightarrow> string list" where
  "split_from w [] = (if w = [] then [] else [w])"
| "split_from w (c # cs) =
     (if is_space c
      then (if w = [] then split_from [] cs else w # split_from [] cs)
      else split_from (w @ [c]) cs)"

definition str_split :: "string \<Rightarrow> string list" where
  "str_split s = split_from [] s"

text \<open>\<open>sep.join(xs)\<close>.\<close>

fun str_join :: "string \<Rightarrow> string list \<Rightarrow> string" where
  "str_join sep [] = []"
| "str_join sep [x] = x"
| "str_join sep (x # y # ys) = x @ sep @ str_join sep (y # ys)"

text \<open>
  \<open>s.split(', ')\<close>: cut at every occurrence of comma-space, scanning from the left;
  empty pieces are kept. The first argument is the piece read so far.
\<close>

fun split_comma_from :: "string \<Rightarrow> string \<Rightarrow> string list" where
  "split_comma_from w [] = [w]"
| "split_comma_from w [c] = [w @ [c]]"
| "split_comma_from w (c # d # cs) =
     (if c = CHR '','' \<and> d = CHR '' '' then w # split_comma_from [] cs
      else split_comma_from (w @ [c]) (d # cs))"

definition split_comma :: "string \<Rightarrow> string list" where
  "split_comma s = split_comma_from [] s"

section \<open>Preparing a full-text query\<close>

text \<open>\<open>Database._prepare_fts_query\<close> (database.py, lines 373 to 401).\<close>

definition special_chars :: "char list" where
  "special_chars = [CHR 0x22, CHR 0x27, CHR ''('', CHR '')'', CHR ''*'', CHR '':'', CHR ''^'']"

definition clean_query :: "string \<Rightarrow> string" where
  "clean_query query = foldl (\<lambda>cleaned ch. str_replace ch CHR '' '' cleaned) query special_chars"

definition query_words :: "string \<Rightarrow> string list" where
  "query_words query =
     map str_strip (filter (\<lambda>word. str_strip word \<noteq> []) (str_split (clean_query query)))"

definition fts_term :: "string \<Rightarrow> string" where
  "fts_term word = (if 2 \<le> length word then word @ ''*'' else word)"

definition prepare_fts_query :: "string \<Rightarrow> string" where
  "prepare_fts_query query =
     (let words = query_words query
      in if words = [] then [CHR 0x22, CHR 0x22]
         else str_join '' '' (map fts_term words))"

section \<open>Approximate re-ranking\<close>

text \<open>
  The dictionaries the storage layer returns (search.py reads them by key). A key that a
  dictionary may lack is an option: \<open>rank\<close> is set by the search queries only,
  \<open>_score\<close> and \<open>_fuzzy_score\<close> by the re-ranking. A Python float is modelled by the
  real number it stands for, and floats are compared as these numbers are.
\<close>

record snippet =
  sn_id :: nat
  sn_description :: string
  sn_content :: string
  sn_language :: string
  sn_created_at :: nat
  sn_updated_at :: nat
  sn_tags :: "string list"
  sn_rank :: "real option"
  sn_score :: "real option"
  sn_fuzzy_score :: "int option"

text \<open>
  The similarity scorer belongs to the fuzzywuzzy library and is a parameter:
  \<open>scorer query choice\<close> is the integer score (0 to 100) that \<open>process.extract\<close> computes
  for a choice with \<open>fuzz.partial_ratio\<close> and the default processor.
\<close>

type_synonym scorer = "string \<Rightarrow> string \<Rightarrow> int"

text \<open>
  \<open>process.extract(query, choices, scorer, limit)\<close>: every choice is paired with its score
  (scores below the cutoff 0 are dropped) and \<open>heapq.nlargest(limit, ..., key=score)\<close>
  keeps the \<open>limit\<close> best, best first, equal scores in the order of the choices.
\<close>

definition process_extract :: "scorer \<Rightarrow> string \<Rightarrow> string list \<Rightarrow> int \<Rightarrow> (string \<times> int) list" where
  "process_extract scorer query choices limit =
     take (nat limit)
       (sort_key (\<lambda>m. - snd m)
          (filter (\<lambda>m. 0 \<le> snd m) (map (\<lambda>choice. (choice, scorer query choice)) choices)))"

definition searchable_text :: "snippet \<Rightarrow> string" where
  "searchable_text sn =
     sn_description sn @ '' '' @ sn_content sn @ '' '' @ sn_language sn @ '' '' @
     str_join '' '' (sn_tags sn)"

text \<open>The inner loop of \<open>_enhance_with_fuzzy_search\<close>: the first pair whose text is the match.\<close>

fun find_text :: "string \<Rightarrow> (string \<times> snippet) list \<Rightarrow> snippet option" where
  "find_text match_text [] = None"
| "find_text match_text ((text, sn) # rest) =
     (if text = match_text then Some sn else find_text match_text rest)"

text \<open>
  The arithmetic of floats belongs to the platform and is a parameter: the conversion of
  an integer to a float and the rounded product and sum of two floats (IEEE binary64 in
  CPython). The literals \<open>0.7\<close> and \<open>0.3\<close> stand for the binary64 numbers nearest to
  them.
\<close>

record float_ops =
  f_of_int :: "int \<Rightarrow> real"
  f_mul :: "real \<Rightarrow> real \<Rightarrow> real"
  f_add :: "real \<Rightarrow> real \<Rightarrow> real"

definition double_0_7 :: real where
  "double_0_7 = 3152519739159347 / 4503599627370496"

definition double_0_3 :: real where
  "double_0_3 = 5404319552844595 / 18014398509481984"

text \<open>
  \<open>(fuzzy_score * 0.7) + (fts_rank * 0.3) if fts_rank else fuzzy_score\<close> (line 141); the
  second branch keeps the integer score.
\<close>

definition combined_score :: "float_ops \<Rightarrow> int \<Rightarrow> real \<Rightarrow> real" where
  "combined_score fo fuzzy_score fts_rank =
     (if fts_rank \<noteq> 0
      then f_add fo (f_mul fo (f_of_int fo fuzzy_score) double_0_7) (f_mul fo fts_rank double_0_3)
      else of_int fuzzy_score)"

definition rank_or_zero :: "snippet \<Rightarrow> real" where
  "rank_or_zero sn = (case sn_rank sn of None \<Rightarrow> 0 | Some r \<Rightarrow> r)"

definition score_or_zero :: "snippet \<Rightarrow> real" where
  "score_or_zero sn = (case sn_score sn of None \<Rightarrow> 0 | Some v \<Rightarrow> v)"

text \<open>
  The outer loop. The source stores the two scores in the dictionary it found and appends
  that same dictionary; a dictionary found twice gets the same two values twice.
\<close>

fun combine ::
  "float_ops \<Rightarrow> (string \<times> snippet) list \<Rightarrow> (string \<times> int) list \<Rightarrow> snippet list" where
  "combine fo searchable_snippets [] = []"
| "combine fo searchable_snippets ((match_text, fuzzy_score) # matches) =
     (if 60 < fuzzy_score
      then (case find_text match_text searchable_snippets of
              None \<Rightarrow> combine fo searchable_snippets matches
            | Some sn \<Rightarrow>
                sn\<lparr>sn_score := Some (combined_score fo fuzzy_score (rank_or_zero sn)),
                   sn_fuzzy_score := Some fuzzy_score\<rparr>
                # combine fo searchable_snippets matches)
      else combine fo searchable_snippets matches)"

text \<open>\<open>_enhance_with_fuzzy_search\<close> (search.py, lines 105 to 149).\<close>

definition enhance_with_fuzzy_search ::
  "float_ops \<Rightarrow> scorer \<Rightarrow> snippet list \<Rightarrow> string \<Rightarrow> int \<Rightarrow> snippet list" where
  "enhance_with_fuzzy_search fo scorer snippets query limit =
     (if snippets = [] then []
      else let searchable_snippets = map (\<lambda>sn. (searchable_text sn, sn)) snippets;
               matches = process_extract scorer query (map fst searchable_snippets) limit;
               result = combine fo searchable_snippets matches
           in sort_key (\<lambda>x. - score_or_zero x) result)"

text \<open>The dictionary a candidate becomes once the re-ranking has scored it.\<close>

definition scored :: "float_ops \<Rightarrow> scorer \<Rightarrow> string \<Rightarrow> snippet \<Rightarrow> snippet" where
  "scored fo scorer query sn =
     sn\<lparr>sn_score := Some (combined_score fo (scorer query (searchable_text sn)) (rank_or_zero sn)),
        sn_fuzzy_score := Some (scorer query (searchable_text sn))\<rparr>"

section \<open>Examples\<close>

text \<open>Arithmetic without rounding, for the examples.\<close>

definition exact_ops :: float_ops where
  "exact_ops = \<lparr>f_of_int = of_int, f_mul = (\<lambda>x y. x * y), f_add = (\<lambda>x y. x + y)\<rparr>"

text \<open>A candidate with nothing but an id and a content, for the examples.\<close>

definition cand :: "nat \<Rightarrow> string \<Rightarrow> snippet" where
  "cand i c = \<lparr>sn_id = i, sn_description = [], sn_content = c, sn_language = [],
      sn_created_at = 0, sn_updated_at = 0, sn_tags = [], sn_rank = None, sn_score = None,
      sn_fuzzy_score = None\<rparr>"

section \<open>The snippet store\<close>

text \<open>
  The Python exceptions that the storage layer raises or catches. \<open>SqliteError\<close> stands
  for \<open>sqlite3.Error\<close> as the engine raises it (any subclass), with its message;
  \<open>ProgrammingError\<close> is the one \<open>connect\<close> raises itself; \<open>PyException\<close> is the
  plain \<open>Exception(message)\<close> of the handlers; \<open>TypeError\<close> is what subscripting
  \<open>None\<close> raises; \<open>OverflowError\<close> is what binding an integer parameter raises when
  the integer does not fit the 64 bits of an SQLite integer.
\<close>

datatype exn =
    SqliteError string
  | ProgrammingError string
  | PyException string
  | TypeError
  | FileNotFoundError string
  | OverflowError

text \<open>The integers that can be bound to a placeholder of a statement.\<close>

definition bindable :: "int \<Rightarrow> bool" where
  "bindable n = (- 9223372036854775808 \<le> n \<and> n \<le> 9223372036854775807)"

text \<open>
  The tables. The schema script \<open>schema.sql\<close> is not among the sources, so the tables
  are modelled from the statements of database.py and from the data model of the
  specification: a snippet row has the six columns the queries select, a tag row is an id
  and a name, a link row is a pair (snippet id, tag id), and an index row has the five
  columns that \<open>populate_fts_table\<close> inserts. Timestamps are clock readings in seconds.
  A \<open>NULL\<close> language is \<open>None\<close>. Rows are kept in insertion order.
\<close>

record snippet_row =
  r_id :: nat
  r_description :: string
  r_content :: string
  r_language :: "string option"
  r_created_at :: nat
  r_updated_at :: nat

record fts_row =
  f_description :: string
  f_content :: string
  f_language :: "string option"
  f_tags :: string
  f_content_id :: nat

text \<open>
  The whole database file. Besides the four tables it holds what the schema decides:
  \<^item> \<open>snippets_seq\<close>, the largest snippet id issued so far (Modelled from the spec:
    the identifier is "assigned by storage on creation" and is one "not previously
    issued"; the column declaration itself is in the absent schema.sql);
  \<^item> \<open>links_unique\<close>, whether \<open>snippet_tags\<close> has a uniqueness constraint on the pair
    (the schema is absent, so both cases are modelled);
  \<^item> \<open>fts_triggers\<close>, whether the schema keeps the index in step with the primary
    tables (see \<open>fts_sync\<close>).
\<close>

record store =
  snippets :: "snippet_row list"
  tags :: "(nat \<times> string) list"
  snippet_tags :: "(nat \<times> nat) list"
  snippets_fts :: "fts_row list"
  snippets_seq :: nat
  links_unique :: bool
  fts_triggers :: bool

subsection \<open>Joins and aggregates\<close>

text \<open>
  The names that \<open>LEFT JOIN snippet_tags ... LEFT JOIN tags\<close> yields for one snippet, in
  the order of the link rows (SQL leaves the order open).
\<close>

definition tag_names :: "store \<Rightarrow> nat \<Rightarrow> string list" where
  "tag_names s snippet_id =
     concat (map (\<lambda>link. map snd (filter (\<lambda>tag. fst tag = snd link) (tags s)))
               (filter (\<lambda>link. fst link = snippet_id) (snippet_tags s)))"

text \<open>\<open>GROUP_CONCAT(t.name, sep)\<close>: \<open>NULL\<close> for a group without names.\<close>

definition group_concat :: "string \<Rightarrow> string list \<Rightarrow> string option" where
  "group_concat sep names = (if names = [] then None else Some (str_join sep names))"

text \<open>\<open>row[6].split(', ') if row[6] else []\<close>.\<close>

definition split_tags :: "string option \<Rightarrow> string list" where
  "split_tags col = (case col of None \<Rightarrow> [] | Some t \<Rightarrow> if t = [] then [] else split_comma t)"

text \<open>
  The dictionary built from a selected row; \<open>rank\<close> is the value of the key \<open>rank\<close>, if
  the query sets one. \<open>row[3] or ''\<close> turns a \<open>NULL\<close> language into the empty string.
\<close>

definition snippet_dict :: "store \<Rightarrow> real option \<Rightarrow> snippet_row \<Rightarrow> snippet" where
  "snippet_dict s rank r =
     \<lparr>sn_id = r_id r,
      sn_description = r_description r,
      sn_content = r_content r,
      sn_language = (case r_language r of None \<Rightarrow> [] | Some l \<Rightarrow> l),
      sn_created_at = r_created_at r,
      sn_updated_at = r_updated_at r,
      sn_tags = split_tags (group_concat '', '' (tag_names s (r_id r))),
      sn_rank = rank,
      sn_score = None,
      sn_fuzzy_score = None\<rparr>"

text \<open>\<open>LIMIT ?\<close>: a negative limit is no limit in SQLite.\<close>

definition sql_limit :: "int \<Rightarrow> 'a list \<Rightarrow> 'a list" where
  "sql_limit limit rows = (if limit < 0 then rows else take (nat limit) rows)"

text \<open>\<open>ORDER BY s.created_at DESC\<close>; rows created in the same second keep their order.\<close>

definition newest_first :: "snippet_row list \<Rightarrow> snippet_row list" where
  "newest_first rows = sort_key (\<lambda>r. - int (r_created_at r)) rows"

subsection \<open>The index and its maintenance\<close>

text \<open>
  The row that the \<open>INSERT ... SELECT\<close> of \<open>populate_fts_table\<close> derives for one snippet:
  its three text columns, its tag names joined by one space (\<open>COALESCE\<close> gives the empty
  string when there is none) and its id as back-reference.
\<close>

definition fts_entry :: "store \<Rightarrow> snippet_row \<Rightarrow> fts_row" where
  "fts_entry s r =
     \<lparr>f_description = r_description r,
      f_content = r_content r,
      f_language = r_language r,
      f_tags = (case group_concat '' '' (tag_names s (r_id r)) of None \<Rightarrow> [] | Some t \<Rightarrow> t),
      f_content_id = r_id r\<rparr>"

text \<open>
  Modelled from the spec: the index maintenance of schema.sql, which is not among the
  sources (database.py writes the index in \<open>populate_fts_table\<close> only). The specification
  says that "every insert/update/delete of a snippet must keep the index consistent", by
  an "index write within the same transaction" as the primary-table write. So, in a store
  whose schema has this maintenance, every write to \<open>snippets\<close> or \<open>snippet_tags\<close> for a
  snippet id is followed by the index write for that id: its index rows are replaced by
  the row derived from the primary tables, or removed when the snippet is gone. In a
  store without it the index is left as it is.
\<close>

definition fts_sync :: "nat \<Rightarrow> store \<Rightarrow> store" where
  "fts_sync snippet_id s =
     (if fts_triggers s
      then s\<lparr>snippets_fts :=
               filter (\<lambda>e. f_content_id e \<noteq> snippet_id) (snippets_fts s) @
               map (fts_entry s) (filter (\<lambda>r. r_id r = snippet_id) (snippets s))\<rparr>
      else s)"

subsection \<open>Statements\<close>

text \<open>
  A statement maps the store to an error message (a constraint that failed) or to the
  rows it returns and the store it leaves.
\<close>

type_synonym 'a stmt = "store \<Rightarrow> string + 'a \<times> store"

text \<open>\<open>SELECT id FROM snippets WHERE id = ?\<close>, then \<open>fetchone()\<close>.\<close>

definition select_snippet :: "nat \<Rightarrow> snippet_row option stmt" where
  "select_snippet snippet_id s = Inr (find (\<lambda>r. r_id r = snippet_id) (snippets s), s)"

text \<open>
  \<open>INSERT INTO snippets (description, content, language) VALUES (?, ?, ?)\<close>, returning
  \<open>lastrowid\<close>. Both timestamps default to the clock reading \<open>now\<close>.
\<close>

definition insert_snippet :: "string \<Rightarrow> string \<Rightarrow> string option \<Rightarrow> nat \<Rightarrow> nat stmt" where
  "insert_snippet description content language now s =
     (let new_id = Suc (fold max (map r_id (snippets s)) (snippets_seq s));
          row = \<lparr>r_id = new_id, r_description = description, r_content = content,
                 r_language = language, r_created_at = now, r_updated_at = now\<rparr>
      in Inr (new_id, fts_sync new_id (s\<lparr>snippets := snippets s @ [row], snippets_seq := new_id\<rparr>)))"

text \<open>
  \<open>INSERT OR IGNORE INTO tags (name) VALUES (?)\<close>. Modelled from the spec: the name is
  "unique across the table", so a name that is there already is ignored.
\<close>

definition insert_or_ignore_tag :: "string \<Rightarrow> unit stmt" where
  "insert_or_ignore_tag name s =
     (if name \<in> snd ` set (tags s) then Inr ((), s)
      else Inr ((), s\<lparr>tags := tags s @ [(Suc (fold max (map fst (tags s)) 0), name)]\<rparr>))"

text \<open>\<open>SELECT id FROM tags WHERE name = ?\<close>, then \<open>fetchone()\<close>.\<close>

definition select_tag_id :: "string \<Rightarrow> nat option stmt" where
  "select_tag_id name s = Inr (map_option fst (find (\<lambda>tag. snd tag = name) (tags s)), s)"

definition unique_failed :: string where
  "unique_failed = ''UNIQUE constraint failed: snippet_tags.snippet_id, snippet_tags.tag_id''"

text \<open>\<open>INSERT OR IGNORE INTO snippet_tags (snippet_id, tag_id) VALUES (?, ?)\<close>.\<close>

definition insert_or_ignore_link :: "nat \<Rightarrow> nat \<Rightarrow> unit stmt" where
  "insert_or_ignore_link snippet_id tag_id s =
     (if links_unique s \<and> (snippet_id, tag_id) \<in> set (snippet_tags s) then Inr ((), s)
      else Inr ((), fts_sync snippet_id
                      (s\<lparr>snippet_tags := snippet_tags s @ [(snippet_id, tag_id)]\<rparr>)))"

text \<open>\<open>INSERT INTO snippet_tags (snippet_id, tag_id) VALUES (?, ?)\<close>.\<close>

definition insert_link :: "nat \<Rightarrow> nat \<Rightarrow> unit stmt" where
  "insert_link snippet_id tag_id s =
     (if links_unique s \<and> (snippet_id, tag_id) \<in> set (snippet_tags s) then Inl unique_failed
      else Inr ((), fts_sync snippet_id
                      (s\<lparr>snippet_tags := snippet_tags s @ [(snippet_id, tag_id)]\<rparr>)))"

text \<open>\<open>UPDATE snippets SET description = ?, content = ?, language = ? WHERE id = ?\<close>.\<close>

definition update_snippet_row :: "nat \<Rightarrow> string \<Rightarrow> string \<Rightarrow> string option \<Rightarrow> unit stmt" where
  "update_snippet_row snippet_id description content language s =
     Inr ((), fts_sync snippet_id
                (s\<lparr>snippets :=
                     map (\<lambda>r. if r_id r = snippet_id
                               then r\<lparr>r_description := description, r_content := content,
                                      r_language := language\<rparr>
                               else r)
                         (snippets s)\<rparr>))"

text \<open>\<open>DELETE FROM snippet_tags WHERE snippet_id = ?\<close>.\<close>

definition delete_links :: "nat \<Rightarrow> unit stmt" where
  "delete_links snippet_id s =
     Inr ((), fts_sync snippet_id
                (s\<lparr>snippet_tags := filter (\<lambda>link. fst link \<noteq> snippet_id) (snippet_tags s)\<rparr>))"

text \<open>\<open>DELETE FROM snippets WHERE id = ?\<close>.\<close>

definition delete_snippet_row :: "nat \<Rightarrow> unit stmt" where
  "delete_snippet_row snippet_id s =
     Inr ((), fts_sync snippet_id
                (s\<lparr>snippets := filter (\<lambda>r. r_id r \<noteq> snippet_id) (snippets s)\<rparr>))"

text \<open>\<open>DELETE FROM snippets_fts\<close>.\<close>

definition delete_fts :: "unit stmt" where
  "delete_fts s = Inr ((), s\<lparr>snippets_fts := []\<rparr>)"

text \<open>\<open>INSERT INTO snippets_fts(...) SELECT ... FROM snippets s ... GROUP BY s.id\<close>.\<close>

definition insert_fts_select :: "unit stmt" where
  "insert_fts_select s =
     Inr ((), s\<lparr>snippets_fts := snippets_fts s @ map (fts_entry s) (snippets s)\<rparr>)"

text \<open>\<open>conn.commit()\<close>.\<close>

definition commit :: "unit stmt" where
  "commit s = Inr ((), s)"

text \<open>The \<open>SELECT\<close> of \<open>get_snippet_by_id\<close>, then \<open>fetchone()\<close>.\<close>

definition select_by_id :: "nat \<Rightarrow> snippet_row option stmt" where
  "select_by_id snippet_id s = Inr (find (\<lambda>r. r_id r = snippet_id) (snippets s), s)"

text \<open>The \<open>SELECT\<close> of \<open>get_all_snippets\<close>, then \<open>fetchall()\<close>.\<close>

definition select_all :: "snippet_row list stmt" where
  "select_all s = Inr (newest_first (snippets s), s)"

subsection \<open>Executing statements\<close>

text \<open>
  The engine can fail at any call (a locked file, a full disk): \<open>faults k = Some msg\<close>
  says that the \<open>k\<close>-th engine call of an operation raises \<open>sqlite3.Error(msg)\<close>. A
  running operation is the store as its connection sees it and the number of engine calls
  made so far. \<open>execute\<close> is one \<open>cursor.execute\<close> (with its fetch) or \<open>conn.commit\<close>.
\<close>

type_synonym faults = "nat \<Rightarrow> string option"

type_synonym txn = "store \<times> nat"

definition execute :: "faults \<Rightarrow> 'a stmt \<Rightarrow> txn \<Rightarrow> (exn \<times> txn) + ('a \<times> txn)" where
  "execute fl stmt t =
     (case fl (snd t) of
        Some msg \<Rightarrow> Inl (SqliteError msg, (fst t, Suc (snd t)))
      | None \<Rightarrow>
          (case stmt (fst t) of
             Inl msg \<Rightarrow> Inl (SqliteError msg, (fst t, Suc (snd t)))
           | Inr (a, s') \<Rightarrow> Inr (a, (s', Suc (snd t)))))"

definition no_faults :: faults where
  "no_faults = (\<lambda>k. None)"

text \<open>
  \<open>except sqlite3.Error as e: conn.rollback(); raise Exception(f"{what}{e}")\<close>: the store
  is the one the transaction started from. Another exception is not caught: it leaves
  the connection with what was written so far.
\<close>

definition rollback_and_raise :: "string \<Rightarrow> store \<Rightarrow> exn \<times> txn \<Rightarrow> store \<times> (exn + 'a)" where
  "rollback_and_raise what s0 et =
     (case fst et of
        SqliteError msg \<Rightarrow> (s0, Inl (PyException (what @ msg)))
      | e \<Rightarrow> (fst (snd et), Inl e))"

text \<open>\<open>except sqlite3.Error as e: raise Exception(f"{what}{e}")\<close>, in the readers.\<close>

definition raise_failed :: "string \<Rightarrow> exn \<times> txn \<Rightarrow> store \<times> (exn + 'a)" where
  "raise_failed what et =
     (case fst et of
        SqliteError msg \<Rightarrow> (fst (snd et), Inl (PyException (what @ msg)))
      | e \<Rightarrow> (fst (snd et), Inl e))"

subsection \<open>The operations, on an open connection\<close>

text \<open>
  The loop over the tag names in \<open>add_snippet\<close> (lines 195 to 215) and in
  \<open>update_snippet\<close> (lines 251 to 271). The two loops differ in the statement that links
  the snippet to the tag, which is the parameter \<open>link\<close>. An empty list stands for
  \<open>tags=None\<close> as well: \<open>if tags:\<close> skips the loop for both.
\<close>

fun link_tags ::
  "faults \<Rightarrow> (nat \<Rightarrow> nat \<Rightarrow> unit stmt) \<Rightarrow> nat \<Rightarrow> string list \<Rightarrow> txn \<Rightarrow> (exn \<times> txn) + (unit \<times> txn)" where
  "link_tags fl link snippet_id [] t = Inr ((), t)"
| "link_tags fl link snippet_id (raw # rest) t =
     (let tag_name = str_lower (str_strip raw)
      in if tag_name = [] then link_tags fl link snippet_id rest t
         else (case execute fl (insert_or_ignore_tag tag_name) t of
                 Inl e \<Rightarrow> Inl e
               | Inr (u, t1) \<Rightarrow>
                   (case execute fl (select_tag_id tag_name) t1 of
                      Inl e \<Rightarrow> Inl e
                    | Inr (row, t2) \<Rightarrow>
                        (case row of
                           None \<Rightarrow> Inl (TypeError, t2)
                         | Some tag_id \<Rightarrow>
                             (case execute fl (link snippet_id tag_id) t2 of
                                Inl e \<Rightarrow> Inl e
                              | Inr (u', t3) \<Rightarrow> link_tags fl link snippet_id rest t3)))))"

text \<open>\<open>add_snippet\<close> (lines 171 to 224), after \<open>connect\<close>.\<close>

definition add_snippet_try ::
  "faults \<Rightarrow> nat \<Rightarrow> store \<Rightarrow> string \<Rightarrow> string \<Rightarrow> string option \<Rightarrow> string list \<Rightarrow> store \<times> (exn + nat)" where
  "add_snippet_try fl now s description content language tgs =
     (case execute fl (insert_snippet description content language now) (s, 0) of
        Inl et \<Rightarrow> rollback_and_raise ''Failed to add snippet: '' s et
      | Inr (snippet_id, t1) \<Rightarrow>
          (case link_tags fl insert_or_ignore_link snippet_id tgs t1 of
             Inl et \<Rightarrow> rollback_and_raise ''Failed to add snippet: '' s et
           | Inr (u, t2) \<Rightarrow>
               (case execute fl commit t2 of
                  Inl et \<Rightarrow> rollback_and_raise ''Failed to add snippet: '' s et
                | Inr (u', t3) \<Rightarrow> (fst t3, Inr snippet_id))))"

text \<open>
  \<open>update_snippet\<close> (lines 226 to 280), after \<open>connect\<close>. The first statement binds the
  id: an id that cannot be bound raises \<open>OverflowError\<close> there, before anything is written,
  and \<open>except sqlite3.Error\<close> does not catch it.
\<close>

definition update_snippet_try ::
  "faults \<Rightarrow> store \<Rightarrow> nat \<Rightarrow> string \<Rightarrow> string \<Rightarrow> string option \<Rightarrow> string list \<Rightarrow> store \<times> (exn + bool)" where
  "update_snippet_try fl s snippet_id description content language tgs =
     (if \<not> bindable (int snippet_id) then (s, Inl OverflowError) else
      case execute fl (select_snippet snippet_id) (s, 0) of
        Inl et \<Rightarrow> rollback_and_raise ''Failed to update snippet: '' s et
      | Inr (row, t1) \<Rightarrow>
          (case row of
             None \<Rightarrow> (fst t1, Inr False)
           | Some r \<Rightarrow>
               (case execute fl (update_snippet_row snippet_id description content language) t1 of
                  Inl et \<Rightarrow> rollback_and_raise ''Failed to update snippet: '' s et
                | Inr (u, t2) \<Rightarrow>
                    (case execute fl (delete_links snippet_id) t2 of
                       Inl et \<Rightarrow> rollback_and_raise ''Failed to update snippet: '' s et
                     | Inr (u', t3) \<Rightarrow>
                         (case link_tags fl insert_link snippet_id tgs t3 of
                            Inl et \<Rightarrow> rollback_and_raise ''Failed to update snippet: '' s et
                          | Inr (u'', t4) \<Rightarrow>
                              (case execute fl commit t4 of
                                 Inl et \<Rightarrow> rollback_and_raise ''Failed to update snippet: '' s et
                               | Inr (u''', t5) \<Rightarrow> (fst t5, Inr True)))))))"

text \<open>
  \<open>except sqlite3.Error as e: conn.rollback(); print(...); return False\<close>, the handler of
  \<open>delete_snippet\<close>.
\<close>

definition rollback_and_return_false :: "store \<Rightarrow> exn \<times> txn \<Rightarrow> store \<times> (exn + bool)" where
  "rollback_and_return_false s0 et =
     (case fst et of
        SqliteError msg \<Rightarrow> (s0, Inr False)
      | e \<Rightarrow> (fst (snd et), Inl e))"

text \<open>
  \<open>delete_snippet\<close> (lines 282 to 314), after \<open>connect\<close>. An id that cannot be bound
  raises \<open>OverflowError\<close> at the first statement, which the handler does not catch. The
  parameters are bound before the statement is run, so the model lets this error come
  before any engine error of that call.
\<close>

definition delete_snippet_try :: "faults \<Rightarrow> store \<Rightarrow> nat \<Rightarrow> store \<times> (exn + bool)" where
  "delete_snippet_try fl s snippet_id =
     (if \<not> bindable (int snippet_id) then (s, Inl OverflowError) else
      case execute fl (select_snippet snippet_id) (s, 0) of
        Inl et \<Rightarrow> rollback_and_return_false s et
      | Inr (row, t1) \<Rightarrow>
          (case row of
             None \<Rightarrow> (fst t1, Inr False)
           | Some r \<Rightarrow>
               (case execute fl (delete_links snippet_id) t1 of
                  Inl et \<Rightarrow> rollback_and_return_false s et
                | Inr (u, t2) \<Rightarrow>
                    (case execute fl (delete_snippet_row snippet_id) t2 of
                       Inl et \<Rightarrow> rollback_and_return_false s et
                     | Inr (u', t3) \<Rightarrow>
                         (case execute fl commit t3 of
                            Inl et \<Rightarrow> rollback_and_return_false s et
                          | Inr (u'', t4) \<Rightarrow> (fst t4, Inr True))))))"

text \<open>
  \<open>get_snippet_by_id\<close> (lines 127 to 169), after \<open>connect\<close>. An id that cannot be bound
  raises \<open>OverflowError\<close>.
\<close>

definition get_snippet_by_id_try :: "faults \<Rightarrow> store \<Rightarrow> nat \<Rightarrow> store \<times> (exn + snippet option)" where
  "get_snippet_by_id_try fl s snippet_id =
     (if \<not> bindable (int snippet_id) then (s, Inl OverflowError) else
      case execute fl (select_by_id snippet_id) (s, 0) of
        Inl et \<Rightarrow> raise_failed ''Failed to retrieve snippet: '' et
      | Inr (row, t1) \<Rightarrow> (fst t1, Inr (map_option (snippet_dict (fst t1) None) row)))"

text \<open>\<open>get_all_snippets\<close> (lines 84 to 125), after \<open>connect\<close>.\<close>

definition get_all_snippets_try :: "faults \<Rightarrow> store \<Rightarrow> store \<times> (exn + snippet list)" where
  "get_all_snippets_try fl s =
     (case execute fl select_all (s, 0) of
        Inl et \<Rightarrow> raise_failed ''Failed to retrieve snippets: '' et
      | Inr (rows, t1) \<Rightarrow> (fst t1, Inr (map (snippet_dict (fst t1) None) rows)))"

text \<open>\<open>populate_fts_table\<close> (lines 454 to 488), after \<open>connect\<close>.\<close>

definition populate_fts_table_try :: "faults \<Rightarrow> store \<Rightarrow> store \<times> (exn + unit)" where
  "populate_fts_table_try fl s =
     (case execute fl delete_fts (s, 0) of
        Inl et \<Rightarrow> rollback_and_raise ''Failed to populate FTS table: '' s et
      | Inr (u, t1) \<Rightarrow>
          (case execute fl insert_fts_select t1 of
             Inl et \<Rightarrow> rollback_and_raise ''Failed to populate FTS table: '' s et
           | Inr (u', t2) \<Rightarrow>
               (case execute fl commit t2 of
                  Inl et \<Rightarrow> rollback_and_raise ''Failed to populate FTS table: '' s et
                | Inr (u'', t3) \<Rightarrow> (fst t3, Inr ()))))"

subsection \<open>Searching\<close>

text \<open>
  SQLite's \<open>LIKE\<close>: \<open>%\<close> in the pattern matches any run of characters, \<open>_\<close> any one
  character, and every other character matches itself, the ASCII letters without regard
  to case. The first argument is the pattern.
\<close>

definition like_fold :: "char \<Rightarrow> char" where
  "like_fold c =
     (let n = (of_char c :: nat) in if 65 \<le> n \<and> n \<le> 90 then char_of (n + 32) else c)"

fun like :: "string \<Rightarrow> string \<Rightarrow> bool" where
  "like [] t = (t = [])"
| "like (p # ps) [] = (p = CHR ''%'' \<and> like ps [])"
| "like (p # ps) (c # cs) =
     (if p = CHR ''%'' then like ps (c # cs) \<or> like (p # ps) cs
      else (p = CHR ''_'' \<or> like_fold p = like_fold c) \<and> like ps cs)"

text \<open>
  The engine reads the pattern and the text as C strings: each ends before its first NUL
  character (U+0000), if it has one.
\<close>

definition c_string :: "string \<Rightarrow> string" where
  "c_string t = takeWhile (\<lambda>c. c \<noteq> CHR 0x00) t"

definition sql_like :: "string \<Rightarrow> string \<Rightarrow> bool" where
  "sql_like pattern t = like (c_string pattern) (c_string t)"

text \<open>
  The \<open>SELECT\<close> of \<open>_fallback_search\<close>, with the pattern bound to all three
  placeholders. A \<open>NULL\<close> language matches nothing.
\<close>

definition like_select :: "string \<Rightarrow> int \<Rightarrow> snippet_row list stmt" where
  "like_select search_pattern limit s =
     Inr (sql_limit limit
            (newest_first
               (filter (\<lambda>r. sql_like search_pattern (r_description r) \<or>
                             sql_like search_pattern (r_content r) \<or>
                             (case r_language r of None \<Rightarrow> False
                              | Some l \<Rightarrow> sql_like search_pattern l))
                       (snippets s))), s)"

text \<open>\<open>_fallback_search\<close> (lines 403 to 452), after \<open>connect\<close>, as engine call \<open>snd t\<close>.\<close>

definition fallback_search_try ::
  "faults \<Rightarrow> txn \<Rightarrow> string \<Rightarrow> int \<Rightarrow> store \<times> (exn + snippet list)" where
  "fallback_search_try fl t query limit =
     (let search_pattern = ''%'' @ query @ ''%''
      in case execute fl (like_select search_pattern limit) t of
           Inl et \<Rightarrow> raise_failed ''Fallback search failed: '' et
         | Inr (rows, t1) \<Rightarrow> (fst t1, Inr (map (snippet_dict (fst t1) (Some 0)) rows)))"

text \<open>
  The full-text engine (FTS5) is a parameter: for a query string and the index it either
  fails with a message (a syntax error, or no FTS5 in this build) or tells, for every
  index row, whether it matches and with which rank.
\<close>

type_synonym fts_engine = "string \<Rightarrow> fts_row list \<Rightarrow> string + (fts_row \<Rightarrow> real option)"

text \<open>
  The \<open>SELECT\<close> of \<open>search_snippets_fts\<close>: the matching index rows joined with their
  snippets, one row per snippet (\<open>GROUP BY s.id\<close>: the rank is that of its first matching
  index row), in the order of the rank.
\<close>

definition first_rank :: "(fts_row \<Rightarrow> real option) \<Rightarrow> fts_row list \<Rightarrow> real option" where
  "first_rank rank_of entries =
     (case List.map_filter rank_of entries of [] \<Rightarrow> None | k # ks \<Rightarrow> Some k)"

definition match_select :: "fts_engine \<Rightarrow> string \<Rightarrow> int \<Rightarrow> (snippet_row \<times> real) list stmt" where
  "match_select engine fts_query limit s =
     (case engine fts_query (snippets_fts s) of
        Inl msg \<Rightarrow> Inl msg
      | Inr rank_of \<Rightarrow>
          Inr (sql_limit limit
                 (sort_key snd
                    (List.map_filter
                       (\<lambda>r. map_option (Pair r)
                               (first_rank rank_of
                                  (filter (\<lambda>e. f_content_id e = r_id r) (snippets_fts s))))
                       (snippets s))), s))"

text \<open>\<open>search_snippets_fts\<close> (lines 316 to 371), after \<open>connect\<close>.\<close>

definition search_snippets_fts_try ::
  "faults \<Rightarrow> fts_engine \<Rightarrow> store \<Rightarrow> string \<Rightarrow> int \<Rightarrow> store \<times> (exn + snippet list)" where
  "search_snippets_fts_try fl engine s query limit =
     (let fts_query = prepare_fts_query query
      in case execute fl (match_select engine fts_query limit) (s, 0) of
           Inl et \<Rightarrow>
             (case fst et of
                SqliteError msg \<Rightarrow> fallback_search_try fl (snd et) query limit
              | e \<Rightarrow> (fst (snd et), Inl e))
         | Inr (rows, t1) \<Rightarrow>
             (fst t1, Inr (map (\<lambda>row. snippet_dict (fst t1) (Some (snd row)) (fst row)) rows)))"

section \<open>The database handle\<close>

text \<open>
  A \<open>Database\<close> object: the file it names, whether it holds a connection, and the flag
  \<open>_closed\<close>. \<open>new_database\<close> is \<open>__init__\<close>.
\<close>

record database =
  db_file :: store
  connection :: bool
  is_closed :: bool

definition new_database :: "store \<Rightarrow> database" where
  "new_database s = \<lparr>db_file = s, connection = False, is_closed = False\<rparr>"

text \<open>\<open>connect\<close> (lines 33 to 44).\<close>

definition connect :: "database \<Rightarrow> exn + database" where
  "connect db =
     (if is_closed db then Inl (ProgrammingError ''Cannot operate on a closed database.'')
      else if \<not> connection db then Inr (db\<lparr>connection := True\<rparr>)
      else Inr db)"

text \<open>\<open>close\<close> (lines 46 to 51).\<close>

definition close :: "database \<Rightarrow> database" where
  "close db = (if connection db then db\<lparr>connection := False, is_closed := True\<rparr>
               else db\<lparr>is_closed := True\<rparr>)"

text \<open>
  Every method starts with \<open>conn = self.connect()\<close>, outside its \<open>try\<close>: the error of
  \<open>connect\<close> reaches the caller as it is.
\<close>

definition with_connection ::
  "database \<Rightarrow> (store \<Rightarrow> store \<times> (exn + 'a)) \<Rightarrow> database \<times> (exn + 'a)" where
  "with_connection db body =
     (case connect db of
        Inl e \<Rightarrow> (db, Inl e)
      | Inr db' \<Rightarrow> (case body (db_file db') of (s', res) \<Rightarrow> (db'\<lparr>db_file := s'\<rparr>, res)))"

definition get_all_snippets :: "faults \<Rightarrow> database \<Rightarrow> database \<times> (exn + snippet list)" where
  "get_all_snippets fl db = with_connection db (\<lambda>s. get_all_snippets_try fl s)"

definition get_snippet_by_id ::
  "faults \<Rightarrow> database \<Rightarrow> nat \<Rightarrow> database \<times> (exn + snippet option)" where
  "get_snippet_by_id fl db snippet_id =
     with_connection db (\<lambda>s. get_snippet_by_id_try fl s snippet_id)"

definition add_snippet ::
  "faults \<Rightarrow> nat \<Rightarrow> database \<Rightarrow> string \<Rightarrow> string \<Rightarrow> string option \<Rightarrow> string list \<Rightarrow> database \<times> (exn + nat)" where
  "add_snippet fl now db description content language tgs =
     with_connection db (\<lambda>s. add_snippet_try fl now s description content language tgs)"

definition update_snippet ::
  "faults \<Rightarrow> database \<Rightarrow> nat \<Rightarrow> string \<Rightarrow> string \<Rightarrow> string option \<Rightarrow> string list \<Rightarrow> database \<times> (exn + bool)" where
  "update_snippet fl db snippet_id description content language tgs =
     with_connection db (\<lambda>s. update_snippet_try fl s snippet_id description content language tgs)"

definition delete_snippet :: "faults \<Rightarrow> database \<Rightarrow> nat \<Rightarrow> database \<times> (exn + bool)" where
  "delete_snippet fl db snippet_id = with_connection db (\<lambda>s. delete_snippet_try fl s snippet_id)"

definition search_snippets_fts ::
  "faults \<Rightarrow> fts_engine \<Rightarrow> database \<Rightarrow> string \<Rightarrow> int \<Rightarrow> database \<times> (exn + snippet list)" where
  "search_snippets_fts fl engine db query limit =
     with_connection db (\<lambda>s. search_snippets_fts_try fl engine s query limit)"

definition fallback_search ::
  "faults \<Rightarrow> database \<Rightarrow> string \<Rightarrow> int \<Rightarrow> database \<times> (exn + snippet list)" where
  "fallback_search fl db query limit =
     with_connection db (\<lambda>s. fallback_search_try fl (s, 0) query limit)"

definition populate_fts_table :: "faults \<Rightarrow> database \<Rightarrow> database \<times> (exn + unit)" where
  "populate_fts_table fl db = with_connection db (\<lambda>s. populate_fts_table_try fl s)"

text \<open>
  \<open>initialize_database\<close> (lines 58 to 82). \<open>schema_file\<close> is the text of schema.sql, if the
  file exists. Modelled from the spec: the script creates what is absent and "must not
  destroy data", so on a store that has its tables it changes nothing.
\<close>

definition executescript :: "string \<Rightarrow> unit stmt" where
  "executescript schema_sql s = Inr ((), s)"

definition initialize_database ::
  "string option \<Rightarrow> faults \<Rightarrow> database \<Rightarrow> database \<times> (exn + unit)" where
  "initialize_database schema_file fl db =
     (case schema_file of
        None \<Rightarrow> (db, Inl (FileNotFoundError ''Schema file not found''))
      | Some schema_sql \<Rightarrow>
          with_connection db
            (\<lambda>s. case execute fl (executescript schema_sql) (s, 0) of
                    Inl et \<Rightarrow> rollback_and_raise ''Failed to initialize database: '' s et
                  | Inr (u, t1) \<Rightarrow>
                      (case execute fl commit t1 of
                         Inl et \<Rightarrow> rollback_and_raise ''Failed to initialize database: '' s et
                       | Inr (u', t2) \<Rightarrow> (fst t2, Inr ()))))"

text \<open>An initialized store with no rows, for the examples.\<close>

definition empty_store :: "bool \<Rightarrow> bool \<Rightarrow> store" where
  "empty_store unique triggers =
     \<lparr>snippets = [], tags = [], snippet_tags = [], snippets_fts = [], snippets_seq = 0,
      links_unique = unique, fts_triggers = triggers\<rparr>"

text \<open>
  The names the tag loop links, in order: every given name, stripped and lower-cased,
  unless that leaves nothing.
\<close>

definition normalized_tags :: "string list \<Rightarrow> string list" where
  "normalized_tags tgs = filter (\<lambda>name. name \<noteq> []) (map (\<lambda>raw. str_lower (str_strip raw)) tgs)"

definition closed_error :: exn where
  "closed_error = ProgrammingError ''Cannot operate on a closed database.''"

text \<open>
  The store that \<open>insert_or_ignore_tag\<close> leaves and the id that \<open>select_tag_id\<close> then
  finds, as functions (used to state what one round of the tag loop does).
\<close>

definition with_tag :: "string \<Rightarrow> store \<Rightarrow> store" where
  "with_tag name s = (case insert_or_ignore_tag name s of Inr (u, s') \<Rightarrow> s' | Inl msg \<Rightarrow> s)"

definition tag_id_of :: "string \<Rightarrow> store \<Rightarrow> nat" where
  "tag_id_of name s = (case find (\<lambda>tag. snd tag = name) (tags s) of Some tag \<Rightarrow> fst tag | None \<Rightarrow> 0)"

text \<open>
  The id that \<open>insert_snippet\<close> issues and the store it leaves; the stores that a
  committed delete and the first two statements of an update leave.
\<close>

definition next_snippet_id :: "store \<Rightarrow> nat" where
  "next_snippet_id s = Suc (fold max (map r_id (snippets s)) (snippets_seq s))"

definition with_snippet :: "string \<Rightarrow> string \<Rightarrow> string option \<Rightarrow> nat \<Rightarrow> store \<Rightarrow> store" where
  "with_snippet description content language now s =
     (case insert_snippet description content language now s of
        Inr (i, s') \<Rightarrow> s' | Inl msg \<Rightarrow> s)"

definition deleted :: "nat \<Rightarrow> store \<Rightarrow> store" where
  "deleted snippet_id s =
     (case delete_links snippet_id s of
        Inr (u, s1) \<Rightarrow> (case delete_snippet_row snippet_id s1 of Inr (u', s2) \<Rightarrow> s2 | Inl msg \<Rightarrow> s)
      | Inl msg \<Rightarrow> s)"

definition rewritten :: "nat \<Rightarrow> string \<Rightarrow> string \<Rightarrow> string option \<Rightarrow> store \<Rightarrow> store" where
  "rewritten snippet_id description content language s =
     (case update_snippet_row snippet_id description content language s of
        Inr (u, s1) \<Rightarrow> (case delete_links snippet_id s1 of Inr (u', s2) \<Rightarrow> s2 | Inl msg \<Rightarrow> s)
      | Inl msg \<Rightarrow> s)"

text \<open>
  What the two linking statements have in common when they succeed: the link is in the
  table afterwards, appended unless it was ignored, and nothing but the link table and
  the index has changed.
\<close>

definition links_only :: "(nat \<Rightarrow> nat \<Rightarrow> unit stmt) \<Rightarrow> bool" where
  "links_only link =
     (\<forall>sid tid a b. link sid tid a = Inr ((), b) \<longrightarrow>
        (snippet_tags b = snippet_tags a \<or> snippet_tags b = snippet_tags a @ [(sid, tid)]) \<and>
        (sid, tid) \<in> set (snippet_tags b) \<and> tags b = tags a \<and> snippets b = snippets a \<and>
        snippets_seq b = snippets_seq a \<and> links_unique b = links_unique a \<and>
        fts_triggers b = fts_triggers a)"

text \<open>
  In the words of the specification: a text "contains the raw query as a substring
  (case-insensitive)". Letters are compared as \<open>LIKE\<close> compares them, the ASCII letters
  without regard to case. \<open>row_contains\<close> says so of one of the three columns of a row,
  each read up to its first NUL character.
\<close>

fun starts_with_fold :: "string \<Rightarrow> string \<Rightarrow> bool" where
  "starts_with_fold [] t = True"
| "starts_with_fold (p # ps) [] = False"
| "starts_with_fold (p # ps) (c # cs) = (like_fold p = like_fold c \<and> starts_with_fold ps cs)"

fun contains_fold :: "string \<Rightarrow> string \<Rightarrow> bool" where
  "contains_fold q [] = starts_with_fold q []"
| "contains_fold q (c # cs) = (starts_with_fold q (c # cs) \<or> contains_fold q cs)"


chapter \<open>Properties\<close>

section \<open>Query preparation: lemmas\<close>













lemma special_not_space: "c \<in> set special_chars \<Longrightarrow> \<not> is_space c"
  by (auto simp: special_chars_def is_space_def)




section \<open>Approximate re-ranking: lemmas and claims\<close>


lemma searchable_text_update [simp]:
  "searchable_text (sn\<lparr>sn_score := a, sn_fuzzy_score := b\<rparr>) = searchable_text sn"
  by (simp add: searchable_text_def)

lemma find_text_Some:
  "find_text t (map (\<lambda>sn. (searchable_text sn, sn)) xs) = Some c \<Longrightarrow> c \<in> set xs \<and> searchable_text c = t"
  by (induction xs) (simp_all split: if_splits)

lemma find_text_None:
  "find_text t (map (\<lambda>sn. (searchable_text sn, sn)) xs) = None \<longleftrightarrow> t \<notin> searchable_text ` set xs"
  by (induction xs) auto

lemma process_extract_set:
  "m \<in> set (process_extract sc q cs limit) \<Longrightarrow> fst m \<in> set cs \<and> snd m = sc q (fst m)"
  by (auto simp: process_extract_def dest!: in_set_takeD)

lemma process_extract_length: "length (process_extract sc q cs limit) \<le> nat limit"
  by (simp add: process_extract_def)

lemma process_extract_all:
  assumes "int (length cs) \<le> limit" "c \<in> set cs" "0 \<le> sc q c"
  shows "(c, sc q c) \<in> set (process_extract sc q cs limit)"
proof -
  let ?ys = "filter (\<lambda>m. 0 \<le> snd m) (map (\<lambda>choice. (choice, sc q choice)) cs)"
  have "length ?ys \<le> length (map (\<lambda>choice. (choice, sc q choice)) cs)"
    by (rule length_filter_le)
  then have "length (sort_key (\<lambda>m. - snd m) ?ys) \<le> length cs"
    by simp
  with assms(1) have "length (sort_key (\<lambda>m. - snd m) ?ys) \<le> nat limit" by linarith
  then have "process_extract sc q cs limit = sort_key (\<lambda>m. - snd m) ?ys"
    unfolding process_extract_def by (rule take_all)
  moreover from assms(2,3) have "(c, sc q c) \<in> set ?ys" by auto
  ultimately show ?thesis by simp
qed

lemma process_extract_distinct:
  assumes "distinct cs"
  shows "distinct (map fst (process_extract sc q cs limit))"
proof -
  let ?xs = "map (\<lambda>choice. (choice, sc q choice)) cs"
  let ?ys = "filter (\<lambda>m. 0 \<le> snd m) ?xs"
  have "map fst ?xs = cs" by (simp add: comp_def)
  with assms have "distinct (map fst ?xs)" by simp
  then have d: "distinct (map fst ?ys)" by (rule distinct_map_filter)
  have "mset (map fst (sort_key (\<lambda>m. - snd m) ?ys)) = mset (map fst ?ys)"
    by simp
  then have "distinct (map fst (sort_key (\<lambda>m. - snd m) ?ys)) = distinct (map fst ?ys)"
    by (rule mset_eq_imp_distinct_iff)
  with d have "distinct (map fst (sort_key (\<lambda>m. - snd m) ?ys))" by simp
  then have "distinct (take (nat limit) (map fst (sort_key (\<lambda>m. - snd m) ?ys)))"
    by (rule distinct_take)
  then show ?thesis by (simp add: process_extract_def take_map)
qed

text \<open>What the outer loop produces, for matches that come from the candidates' texts.\<close>

lemma combine_texts:
  assumes "\<forall>m\<in>set ms. fst m \<in> searchable_text ` set xs"
  shows "map (\<lambda>e. (searchable_text e, sn_fuzzy_score e))
           (combine fo (map (\<lambda>sn. (searchable_text sn, sn)) xs) ms)
         = map (\<lambda>m. (fst m, Some (snd m))) (filter (\<lambda>m. 60 < snd m) ms)"
  using assms
proof (induction ms)
  case Nil
  then show ?case by simp
next
  case (Cons m ms)
  obtain t f where m: "m = (t, f)" by (cases m)
  from Cons.prems m have "t \<in> searchable_text ` set xs" by simp
  then obtain c where c: "find_text t (map (\<lambda>sn. (searchable_text sn, sn)) xs) = Some c"
    using find_text_None[of t xs] by (cases "find_text t (map (\<lambda>sn. (searchable_text sn, sn)) xs)") auto
  from find_text_Some[OF c] have "searchable_text c = t" by simp
  with Cons c m show ?case by simp
qed

lemma combine_members:
  assumes "\<forall>m\<in>set ms. snd m = sc q (fst m)"
    and "e \<in> set (combine fo (map (\<lambda>sn. (searchable_text sn, sn)) xs) ms)"
  shows "\<exists>c\<in>set xs. e = scored fo sc q c \<and> 60 < sc q (searchable_text c)"
  using assms
proof (induction ms)
  case Nil
  then show ?case by simp
next
  case (Cons m ms)
  obtain t f where m: "m = (t, f)" by (cases m)
  from Cons.prems(1) m have f: "f = sc q t" by simp
  show ?case
  proof (cases "e \<in> set (combine fo (map (\<lambda>sn. (searchable_text sn, sn)) xs) ms)")
    case True
    with Cons show ?thesis by simp
  next
    case False
    with Cons.prems(2) m obtain c where
      c: "find_text t (map (\<lambda>sn. (searchable_text sn, sn)) xs) = Some c" and gt: "60 < f"
      and e: "e = c\<lparr>sn_score := Some (combined_score fo f (rank_or_zero c)), sn_fuzzy_score := Some f\<rparr>"
      by (auto split: if_splits option.splits)
    from find_text_Some[OF c] have "c \<in> set xs" "searchable_text c = t" by simp_all
    with e f gt show ?thesis by (auto simp: scored_def)
  qed
qed

lemma combine_length: "length (combine fo ss ms) \<le> length ms"
  by (induction ms) (auto split: option.splits)

lemma sort_desc_sorted:
  "sorted_wrt (\<lambda>a b. score_or_zero b \<le> score_or_zero a) (sort_key (\<lambda>x. - score_or_zero x) xs)"
proof -
  have "sorted (map (\<lambda>x. - score_or_zero x) (sort_key (\<lambda>x. - score_or_zero x) xs))"
    by (rule sorted_sort_key)
  then show ?thesis by (simp add: sorted_map)
qed


lemma sort_desc_scores:
  assumes "\<forall>x\<in>set xs. sn_score x \<noteq> None"
  shows "sorted_wrt (\<lambda>a b. case (sn_score a, sn_score b) of
                            (Some x, Some y) \<Rightarrow> y \<le> x | other \<Rightarrow> False)
           (sort_key (\<lambda>x. - score_or_zero x) xs)"
proof -
  let ?ys = "sort_key (\<lambda>x. - score_or_zero x) xs"
  have s: "sorted_wrt (\<lambda>a b. score_or_zero b \<le> score_or_zero a) ?ys"
    by (rule sort_desc_sorted)
  have "\<forall>x\<in>set ?ys. sn_score x \<noteq> None" using assms by simp
  then have "\<And>a b. a \<in> set ?ys \<Longrightarrow> b \<in> set ?ys \<Longrightarrow> score_or_zero b \<le> score_or_zero a \<Longrightarrow>
      (case (sn_score a, sn_score b) of (Some x, Some y) \<Rightarrow> y \<le> x | other \<Rightarrow> False)"
    by (auto simp: score_or_zero_def split: option.splits)
  with s show ?thesis by (rule sorted_wrt_mono_rel[rotated])
qed

text \<open>
  Claim C5. The re-ranking keeps a candidate only when its similarity score is strictly
  above 60: every returned dictionary is a candidate scoring more than 60 (so one scoring
  exactly 60 is left out), with \<open>_fuzzy_score\<close> set to the similarity and \<open>_score\<close> set
  to the combined score: the float sum of the float products similarity x 0.7 and
  rank x 0.3 when the candidate has a rank that is not zero, and the similarity itself
  when its rank is zero or absent. Every extracted match scoring more than 60 is
  returned, so a candidate scoring 61 is returned whenever the limit does not cut the
  candidate list. The result is in descending order of \<open>_score\<close> and has at most
  \<open>limit\<close> entries.
\<close>

theorem enhance_threshold_ranking:
  "(let r = enhance_with_fuzzy_search fo sc cands q limit in
     (\<forall>e\<in>set r. \<exists>c\<in>set cands. 60 < sc q (searchable_text c) \<and>
        e = c\<lparr>sn_score :=
                 Some (case sn_rank c of
                         None \<Rightarrow> of_int (sc q (searchable_text c))
                       | Some k \<Rightarrow>
                           if k = 0 then of_int (sc q (searchable_text c))
                           else f_add fo
                                  (f_mul fo (f_of_int fo (sc q (searchable_text c)))
                                     (3152519739159347 / 4503599627370496))
                                  (f_mul fo k (5404319552844595 / 18014398509481984))),
              sn_fuzzy_score := Some (sc q (searchable_text c))\<rparr>)
   \<and> (\<forall>m\<in>set (process_extract sc q (map searchable_text cands) limit). 60 < snd m \<longrightarrow>
        (\<exists>e\<in>set r. searchable_text e = fst m \<and> sn_fuzzy_score e = Some (snd m)))
   \<and> (int (length cands) \<le> limit \<longrightarrow>
        (\<forall>c\<in>set cands. 61 \<le> sc q (searchable_text c) \<longrightarrow>
           (\<exists>e\<in>set r. searchable_text e = searchable_text c \<and>
              sn_fuzzy_score e = Some (sc q (searchable_text c)))))
   \<and> (\<forall>c\<in>set cands. sc q (searchable_text c) \<le> 60 \<longrightarrow>
        (\<forall>e\<in>set r. searchable_text e \<noteq> searchable_text c))
   \<and> sorted_wrt (\<lambda>a b. case (sn_score a, sn_score b) of
                           (Some x, Some y) \<Rightarrow> y \<le> x | other \<Rightarrow> False) r
   \<and> length r \<le> nat limit)"
proof (cases "cands = []")
  case True
  then show ?thesis by (simp add: enhance_with_fuzzy_search_def process_extract_def)
next
  case False
  let ?ss = "map (\<lambda>sn. (searchable_text sn, sn)) cands"
  let ?ms = "process_extract sc q (map searchable_text cands) limit"
  let ?res = "combine fo ?ss ?ms"
  let ?r = "enhance_with_fuzzy_search fo sc cands q limit"
  have r: "?r = sort_key (\<lambda>x. - score_or_zero x) ?res"
    using False by (simp add: enhance_with_fuzzy_search_def comp_def)
  have set_r: "set ?r = set ?res" by (simp add: r)
  have ms1: "\<forall>m\<in>set ?ms. snd m = sc q (fst m)"
    using process_extract_set by blast
  have ms2: "\<forall>m\<in>set ?ms. fst m \<in> searchable_text ` set cands"
    using process_extract_set[of _ sc q "map searchable_text cands" limit] by auto
  have mem_res: "\<And>e. e \<in> set ?res \<Longrightarrow> \<exists>c\<in>set cands. e = scored fo sc q c \<and> 60 < sc q (searchable_text c)"
    using combine_members[of ?ms sc q _ fo cands, OF ms1] by blast
  have mem: "\<And>e. e \<in> set ?r \<Longrightarrow> \<exists>c\<in>set cands. e = scored fo sc q c \<and> 60 < sc q (searchable_text c)"
    using mem_res set_r by blast
  have texts: "map (\<lambda>e. (searchable_text e, sn_fuzzy_score e)) ?res
      = map (\<lambda>m. (fst m, Some (snd m))) (filter (\<lambda>m. 60 < snd m) ?ms)"
    by (rule combine_texts[OF ms2])
  have P1: "\<forall>e\<in>set ?r. \<exists>c\<in>set cands. 60 < sc q (searchable_text c) \<and>
        e = c\<lparr>sn_score :=
                 Some (case sn_rank c of
                         None \<Rightarrow> of_int (sc q (searchable_text c))
                       | Some k \<Rightarrow>
                           if k = 0 then of_int (sc q (searchable_text c))
                           else f_add fo
                                  (f_mul fo (f_of_int fo (sc q (searchable_text c)))
                                     (3152519739159347 / 4503599627370496))
                                  (f_mul fo k (5404319552844595 / 18014398509481984))),
              sn_fuzzy_score := Some (sc q (searchable_text c))\<rparr>"
  proof
    fix e assume "e \<in> set ?r"
    from mem[OF this] obtain c where "c \<in> set cands" "e = scored fo sc q c" "60 < sc q (searchable_text c)"
      by blast
    then show "\<exists>c\<in>set cands. 60 < sc q (searchable_text c) \<and>
        e = c\<lparr>sn_score :=
                 Some (case sn_rank c of
                         None \<Rightarrow> of_int (sc q (searchable_text c))
                       | Some k \<Rightarrow>
                           if k = 0 then of_int (sc q (searchable_text c))
                           else f_add fo
                                  (f_mul fo (f_of_int fo (sc q (searchable_text c)))
                                     (3152519739159347 / 4503599627370496))
                                  (f_mul fo k (5404319552844595 / 18014398509481984))),
              sn_fuzzy_score := Some (sc q (searchable_text c))\<rparr>"
      by (intro bexI[of _ c])
         (simp_all add: scored_def combined_score_def rank_or_zero_def double_0_7_def
            double_0_3_def split: option.splits)
  qed
  have P2: "\<forall>m\<in>set ?ms. 60 < snd m \<longrightarrow>
        (\<exists>e\<in>set ?r. searchable_text e = fst m \<and> sn_fuzzy_score e = Some (snd m))"
  proof (intro ballI impI)
    fix m assume "m \<in> set ?ms" "60 < snd m"
    then have "(fst m, Some (snd m)) \<in> set (map (\<lambda>m. (fst m, Some (snd m))) (filter (\<lambda>m. 60 < snd m) ?ms))"
      by force
    then have "(fst m, Some (snd m)) \<in> set (map (\<lambda>e. (searchable_text e, sn_fuzzy_score e)) ?res)"
      by (simp only: texts)
    then obtain e where "e \<in> set ?res" "searchable_text e = fst m" "sn_fuzzy_score e = Some (snd m)"
      by auto
    then show "\<exists>e\<in>set ?r. searchable_text e = fst m \<and> sn_fuzzy_score e = Some (snd m)"
      using set_r by blast
  qed
  have P3: "int (length cands) \<le> limit \<longrightarrow>
        (\<forall>c\<in>set cands. 61 \<le> sc q (searchable_text c) \<longrightarrow>
           (\<exists>e\<in>set ?r. searchable_text e = searchable_text c \<and>
              sn_fuzzy_score e = Some (sc q (searchable_text c))))"
  proof (intro ballI impI)
    fix c assume len: "int (length cands) \<le> limit" and c: "c \<in> set cands"
      and sc: "61 \<le> sc q (searchable_text c)"
    have in_ms: "(searchable_text c, sc q (searchable_text c)) \<in> set ?ms"
      using len c sc by (intro process_extract_all) simp_all
    from sc have gt: "60 < snd (searchable_text c, sc q (searchable_text c))" by simp
    from P2[rule_format, OF in_ms gt]
    show "\<exists>e\<in>set ?r. searchable_text e = searchable_text c \<and>
              sn_fuzzy_score e = Some (sc q (searchable_text c))" by simp
  qed
  have P4: "\<forall>c\<in>set cands. sc q (searchable_text c) \<le> 60 \<longrightarrow>
        (\<forall>e\<in>set ?r. searchable_text e \<noteq> searchable_text c)"
  proof (intro ballI impI)
    fix c e assume "sc q (searchable_text c) \<le> 60" and e: "e \<in> set ?r"
    from mem[OF e] obtain d where "e = scored fo sc q d" "60 < sc q (searchable_text d)" by blast
    with \<open>sc q (searchable_text c) \<le> 60\<close> show "searchable_text e \<noteq> searchable_text c"
      by (auto simp: scored_def)
  qed
  have "\<forall>x\<in>set ?res. sn_score x \<noteq> None"
  proof
    fix x assume "x \<in> set ?res"
    from mem_res[OF this] obtain c where "x = scored fo sc q c" by blast
    then show "sn_score x \<noteq> None" by (simp add: scored_def)
  qed
  then have P5: "sorted_wrt (\<lambda>a b. case (sn_score a, sn_score b) of
                           (Some x, Some y) \<Rightarrow> y \<le> x | other \<Rightarrow> False) ?r"
    unfolding r by (rule sort_desc_scores)
  have "length ?res \<le> length ?ms" by (rule combine_length)
  also have "\<dots> \<le> nat limit" by (rule process_extract_length)
  finally have P6: "length ?r \<le> nat limit" by (simp add: r)
  from P1 P2 P3 P4 P5 P6 show ?thesis unfolding Let_def by blast
qed

text \<open>
  An example with arithmetic that does not round: three candidates scoring 88, 61 and
  60, the first with rank -2. The one scoring 60 is left out; the first gets 88 x 0.7 -
  2 x 0.3, which is below 61 (the literals are not exactly 0.7 and 0.3), so it comes
  second.
\<close>

theorem enhance_threshold_ranking_witness:
  "enhance_with_fuzzy_search exact_ops (\<lambda>q t. if length t = 6 then 88 else 56 + int (length t))
     [(cand 1 ''ccc'')\<lparr>sn_rank := Some (- 2)\<rparr>, cand 2 ''bb'', cand 3 ''a''] ''b'' 5
     = [(cand 2 ''bb'')\<lparr>sn_score := Some 61, sn_fuzzy_score := Some 61\<rparr>,
        (cand 1 ''ccc'')\<lparr>sn_rank := Some (- 2),
           sn_score := Some (88 * (3152519739159347 / 4503599627370496)
                             + (- 2) * (5404319552844595 / 18014398509481984)),
           sn_fuzzy_score := Some 88\<rparr>]
   \<and> length (enhance_with_fuzzy_search exact_ops
        (\<lambda>q t. if length t = 6 then 88 else 56 + int (length t))
        [(cand 1 ''ccc'')\<lparr>sn_rank := Some (- 2)\<rparr>, cand 2 ''bb'', cand 3 ''a''] ''b'' 5) \<le> nat 5"
  using enhance_threshold_ranking
    [of exact_ops "\<lambda>q t. if length t = 6 then 88 else 56 + int (length t)"
        "[(cand 1 ''ccc'')\<lparr>sn_rank := Some (- 2)\<rparr>, cand 2 ''bb'', cand 3 ''a'']" "''b''" 5]
  by (simp add: enhance_with_fuzzy_search_def process_extract_def searchable_text_def cand_def
      combined_score_def rank_or_zero_def score_or_zero_def exact_ops_def double_0_7_def
      double_0_3_def Let_def)

text \<open>
  Claim C10. The re-ranking finds the dictionary of a match by the equality of the
  searchable texts. When the candidates' texts are pairwise distinct, the result has no
  duplicates, each entry is one of the candidates (with its scores), and there are at most
  \<open>limit\<close> entries. Without distinctness this fails: two candidates with the same text
  both resolve to the first of them, which is then returned twice.
\<close>

theorem enhance_distinct_texts:
  "(distinct (map searchable_text cands) \<longrightarrow>
      (let r = enhance_with_fuzzy_search fo sc cands q limit in
         distinct r \<and> distinct (map searchable_text r) \<and>
         set r \<subseteq> scored fo sc q ` set cands \<and> length r \<le> nat limit))
   \<and> (searchable_text a = searchable_text b \<and> 60 < sc q (searchable_text a) \<and> 2 \<le> limit \<longrightarrow>
        enhance_with_fuzzy_search fo sc [a, b] q limit = [scored fo sc q a, scored fo sc q a])"
proof (intro conjI impI)
  assume d: "distinct (map searchable_text cands)"
  let ?ss = "map (\<lambda>sn. (searchable_text sn, sn)) cands"
  let ?ms = "process_extract sc q (map searchable_text cands) limit"
  let ?res = "combine fo ?ss ?ms"
  let ?r = "enhance_with_fuzzy_search fo sc cands q limit"
  have r: "?r = sort_key (\<lambda>x. - score_or_zero x) ?res"
    by (cases "cands = []") (simp_all add: enhance_with_fuzzy_search_def comp_def process_extract_def)
  have ms1: "\<forall>m\<in>set ?ms. snd m = sc q (fst m)"
    using process_extract_set by blast
  have ms2: "\<forall>m\<in>set ?ms. fst m \<in> searchable_text ` set cands"
    using process_extract_set[of _ sc q "map searchable_text cands" limit] by auto
  have "map searchable_text ?res = map fst (filter (\<lambda>m. 60 < snd m) ?ms)"
    using arg_cong[OF combine_texts[OF ms2], of "map fst"] by (simp add: comp_def)
  moreover have "distinct (map fst (filter (\<lambda>m. 60 < snd m) ?ms))"
    using process_extract_distinct[OF d] by (rule distinct_map_filter)
  ultimately have dres: "distinct (map searchable_text ?res)" by simp
  have "mset (map searchable_text ?r) = mset (map searchable_text ?res)"
    by (simp add: r)
  then have "distinct (map searchable_text ?r) = distinct (map searchable_text ?res)"
    by (rule mset_eq_imp_distinct_iff)
  with dres have D2: "distinct (map searchable_text ?r)" by simp
  then have D1: "distinct ?r" by (simp add: distinct_map)
  have D3: "set ?r \<subseteq> scored fo sc q ` set cands"
    using combine_members[of ?ms sc q _ fo cands, OF ms1] by (auto simp: r)
  have "length ?res \<le> length ?ms" by (rule combine_length)
  also have "\<dots> \<le> nat limit" by (rule process_extract_length)
  finally have D4: "length ?r \<le> nat limit" by (simp add: r)
  from D1 D2 D3 D4
  show "let r = ?r in distinct r \<and> distinct (map searchable_text r) \<and>
         set r \<subseteq> scored fo sc q ` set cands \<and> length r \<le> nat limit"
    by (simp add: Let_def)
next
  assume h: "searchable_text a = searchable_text b \<and> 60 < sc q (searchable_text a) \<and> 2 \<le> limit"
  from h have eq: "searchable_text b = searchable_text a" by simp
  from h have gt: "60 < sc q (searchable_text a)" by blast
  from h have lim: "2 \<le> limit" by blast
  from lim have n: "nat limit = Suc (Suc (nat limit - 2))" by simp
  from gt have ms: "process_extract sc q [searchable_text a, searchable_text a] limit
      = [(searchable_text a, sc q (searchable_text a)), (searchable_text a, sc q (searchable_text a))]"
    unfolding process_extract_def by (subst n) simp
  show "enhance_with_fuzzy_search fo sc [a, b] q limit = [scored fo sc q a, scored fo sc q a]"
    using gt by (simp add: enhance_with_fuzzy_search_def eq ms scored_def)
qed

theorem enhance_distinct_texts_witness:
  "distinct (map searchable_text [cand 1 ''a'', cand 2 ''bb''])
   \<and> distinct (enhance_with_fuzzy_search exact_ops (\<lambda>q t. 70) [cand 1 ''a'', cand 2 ''bb''] ''b'' 5)
   \<and> enhance_with_fuzzy_search exact_ops (\<lambda>q t. 70) [cand 1 ''a'', cand 2 ''a''] ''b'' 5
       = [scored exact_ops (\<lambda>q t. 70) ''b'' (cand 1 ''a''), scored exact_ops (\<lambda>q t. 70) ''b'' (cand 1 ''a'')]"
proof -
  have d: "distinct (map searchable_text [cand 1 ''a'', cand 2 ''bb''])"
    by (simp add: searchable_text_def cand_def)
  have e: "searchable_text (cand 1 ''a'') = searchable_text (cand 2 ''a'')
      \<and> 60 < (\<lambda>q t. 70::int) ''b'' (searchable_text (cand 1 ''a'')) \<and> (2::int) \<le> 5"
    by (simp add: searchable_text_def cand_def)
  from enhance_distinct_texts[where cands="[cand 1 ''a'', cand 2 ''bb'']" and sc="\<lambda>q t. 70"
      and q="''b''" and limit=5 and a="cand 1 ''a''" and b="cand 2 ''a''" and fo=exact_ops] d e
  show ?thesis by (simp add: Let_def)
qed

section \<open>The database handle: lemmas and claims\<close>

lemma execute_fault:
  "fl (snd t) = Some msg \<Longrightarrow> execute fl stmt t = Inl (SqliteError msg, (fst t, Suc (snd t)))"
  by (simp add: execute_def)

lemma execute_ok:
  "fl (snd t) = None \<Longrightarrow> stmt (fst t) = Inr (a, s') \<Longrightarrow> execute fl stmt t = Inr (a, (s', Suc (snd t)))"
  by (simp add: execute_def)

lemma execute_failed:
  "fl (snd t) = None \<Longrightarrow> stmt (fst t) = Inl msg \<Longrightarrow>
     execute fl stmt t = Inl (SqliteError msg, (fst t, Suc (snd t)))"
  by (simp add: execute_def)

lemma with_connection_closed:
  "is_closed db \<Longrightarrow> with_connection db body = (db, Inl closed_error)"
  by (simp add: with_connection_def connect_def closed_error_def)

lemma with_connection_open:
  "\<not> is_closed db \<Longrightarrow> connection (fst (with_connection db body)) \<and> \<not> is_closed (fst (with_connection db body))"
  by (simp add: with_connection_def connect_def split: prod.splits)

lemma is_closed_close: "is_closed (close db) \<and> \<not> connection (close db)"
  by (simp add: close_def)

text \<open>
  Claim C9. Once \<open>close\<close> has been called, the handle is closed and holds no
  connection, and every storage operation on it returns at once with the programming
  error of \<open>connect\<close>, leaving the handle as it is: the connection is not reopened. A
  new handle holds no connection; the first operation on it opens one.
\<close>

theorem closed_database_fails_fast:
  "(let db = close db0 in
      is_closed db \<and> \<not> connection db
    \<and> get_all_snippets fl db = (db, Inl closed_error)
    \<and> get_snippet_by_id fl db snippet_id = (db, Inl closed_error)
    \<and> add_snippet fl now db description content language tgs = (db, Inl closed_error)
    \<and> update_snippet fl db snippet_id description content language tgs = (db, Inl closed_error)
    \<and> delete_snippet fl db snippet_id = (db, Inl closed_error)
    \<and> search_snippets_fts fl engine db query limit = (db, Inl closed_error)
    \<and> fallback_search fl db query limit = (db, Inl closed_error)
    \<and> populate_fts_table fl db = (db, Inl closed_error)
    \<and> initialize_database (Some schema_sql) fl db = (db, Inl closed_error))
   \<and> closed_error = ProgrammingError ''Cannot operate on a closed database.''
   \<and> (let db = new_database s in
      \<not> connection db
    \<and> connection (fst (get_all_snippets fl db))
    \<and> connection (fst (get_snippet_by_id fl db snippet_id))
    \<and> connection (fst (add_snippet fl now db description content language tgs))
    \<and> connection (fst (update_snippet fl db snippet_id description content language tgs))
    \<and> connection (fst (delete_snippet fl db snippet_id))
    \<and> connection (fst (search_snippets_fts fl engine db query limit))
    \<and> connection (fst (fallback_search fl db query limit))
    \<and> connection (fst (populate_fts_table fl db))
    \<and> connection (fst (initialize_database (Some schema_sql) fl db)))"
proof -
  have c: "is_closed (close db0)" "\<not> connection (close db0)"
    using is_closed_close by simp_all
  have n: "\<not> is_closed (new_database s)" "\<not> connection (new_database s)"
    by (simp_all add: new_database_def)
  show ?thesis
    unfolding Let_def get_all_snippets_def get_snippet_by_id_def add_snippet_def
      update_snippet_def delete_snippet_def search_snippets_fts_def fallback_search_def
      populate_fts_table_def initialize_database_def option.case
    using c n
    by (simp add: with_connection_closed[OF c(1)] with_connection_open[OF n(1)])
       (simp add: closed_error_def)
qed

section \<open>The tag loop: lemmas\<close>

lemma insert_or_ignore_tag_eq: "insert_or_ignore_tag name s = Inr ((), with_tag name s)"
  by (simp add: with_tag_def insert_or_ignore_tag_def)

lemma name_in_with_tag: "name \<in> snd ` set (tags (with_tag name s))"
  by (simp add: with_tag_def insert_or_ignore_tag_def)

lemma find_tag_Some:
  "name \<in> snd ` set (tags s) \<Longrightarrow> \<exists>tag. find (\<lambda>tag. snd tag = name) (tags s) = Some tag"
  by (cases "find (\<lambda>tag. snd tag = name) (tags s)") (auto simp: find_None_iff)

lemma select_tag_id_eq:
  "name \<in> snd ` set (tags s) \<Longrightarrow> select_tag_id name s = Inr (Some (tag_id_of name s), s)"
  using find_tag_Some[of name s] by (auto simp: select_tag_id_def tag_id_of_def)

lemma select_with_tag:
  "select_tag_id name (with_tag name s)
     = Inr (Some (tag_id_of name (with_tag name s)), with_tag name s)"
  by (rule select_tag_id_eq[OF name_in_with_tag])

text \<open>One round of the tag loop, for a name that is not blank.\<close>

lemma link_tags_round:
  assumes "str_lower (str_strip raw) \<noteq> []"
  shows "link_tags fl link sid (raw # rest) (s, n) =
     (let name = str_lower (str_strip raw); s1 = with_tag name s in
      case fl n of Some msg \<Rightarrow> Inl (SqliteError msg, (s, Suc n))
      | None \<Rightarrow>
        (case fl (Suc n) of Some msg \<Rightarrow> Inl (SqliteError msg, (s1, Suc (Suc n)))
         | None \<Rightarrow>
           (case fl (Suc (Suc n)) of Some msg \<Rightarrow> Inl (SqliteError msg, (s1, Suc (Suc (Suc n))))
            | None \<Rightarrow>
              (case link sid (tag_id_of name s1) s1 of
                 Inl m \<Rightarrow> Inl (SqliteError m, (s1, Suc (Suc (Suc n))))
               | Inr (u, s2) \<Rightarrow> link_tags fl link sid rest (s2, Suc (Suc (Suc n)))))))"
  using assms
  by (simp add: Let_def execute_def insert_or_ignore_tag_eq select_with_tag
      split: option.splits sum.splits)

lemma link_tags_blank:
  "str_lower (str_strip raw) = [] \<Longrightarrow>
     link_tags fl link sid (raw # rest) t = link_tags fl link sid rest t"
  by simp

lemma normalized_tags_Cons:
  "normalized_tags (raw # rest) =
     (if str_lower (str_strip raw) = [] then normalized_tags rest
      else str_lower (str_strip raw) # normalized_tags rest)"
  by (simp add: normalized_tags_def)

lemma normalized_tags_Nil: "normalized_tags [] = []"
  by (simp add: normalized_tags_def)

text \<open>
  Faults in the tag loop. \<open>M\<close> holds the messages with which the linking statement can
  fail by itself.
\<close>

lemma link_tags_fault:
  assumes link: "\<forall>tid s m. link sid tid s = Inl m \<longrightarrow> m \<in> M"
  shows "n \<le> k \<Longrightarrow> k < n + 3 * length (normalized_tags tgs) \<Longrightarrow> fl k \<noteq> None \<Longrightarrow>
     \<exists>msg t'. link_tags fl link sid tgs (s, n) = Inl (SqliteError msg, t') \<and>
        ((\<exists>j. n \<le> j \<and> j \<le> k \<and> fl j = Some msg) \<or> msg \<in> M)"
proof (induction tgs arbitrary: s n)
  case Nil
  then show ?case by (simp add: normalized_tags_Nil)
next
  case (Cons raw rest)
  show ?case
  proof (cases "str_lower (str_strip raw) = []")
    case True
    with Cons.prems have "k < n + 3 * length (normalized_tags rest)"
      by (simp add: normalized_tags_Cons)
    from Cons.IH[OF Cons.prems(1) this Cons.prems(3)] True show ?thesis
      by (simp add: link_tags_blank)
  next
    case False
    let ?name = "str_lower (str_strip raw)"
    let ?s1 = "with_tag ?name s"
    note round = link_tags_round[OF False, of fl link sid rest s n]
    show ?thesis
    proof (cases "fl n")
      case (Some msg)
      then have "\<exists>j. n \<le> j \<and> j \<le> k \<and> fl j = Some msg"
        using Cons.prems(1) by (intro exI[of _ n]) simp
      with round Some show ?thesis by (simp add: Let_def del: link_tags.simps)
    next
      case n0: None
      show ?thesis
      proof (cases "fl (Suc n)")
        case (Some msg)
        have "Suc n \<le> k"
        proof (rule ccontr)
          assume "\<not> Suc n \<le> k"
          with Cons.prems(1) have "k = n" by arith
          with n0 Cons.prems(3) show False by auto
        qed
        with Some have "\<exists>j. n \<le> j \<and> j \<le> k \<and> fl j = Some msg"
          by (intro exI[of _ "Suc n"]) simp
        with round n0 Some show ?thesis by (simp add: Let_def del: link_tags.simps)
      next
        case n1: None
        show ?thesis
        proof (cases "fl (Suc (Suc n))")
          case (Some msg)
          have "Suc (Suc n) \<le> k"
          proof (rule ccontr)
            assume "\<not> Suc (Suc n) \<le> k"
            with Cons.prems(1) have "k = n \<or> k = Suc n" by arith
            with n0 n1 Cons.prems(3) show False by auto
          qed
          with Some have "\<exists>j. n \<le> j \<and> j \<le> k \<and> fl j = Some msg"
            by (intro exI[of _ "Suc (Suc n)"]) simp
          with round n0 n1 Some show ?thesis by (simp add: Let_def del: link_tags.simps)
        next
          case n2: None
          show ?thesis
          proof (cases "link sid (tag_id_of ?name ?s1) ?s1")
            case (Inl m)
            with link have "m \<in> M" by blast
            with round n0 n1 n2 Inl show ?thesis by (simp add: Let_def del: link_tags.simps)
          next
            case (Inr p)
            obtain u s2 where p: "p = (u, s2)" by (cases p)
            have k3: "Suc (Suc (Suc n)) \<le> k"
            proof (rule ccontr)
              assume "\<not> Suc (Suc (Suc n)) \<le> k"
              with Cons.prems(1) have "k = n \<or> k = Suc n \<or> k = Suc (Suc n)" by arith
              with n0 n1 n2 Cons.prems(3) show False by auto
            qed
            from Cons.prems(2) False
            have "k < Suc (Suc (Suc n)) + 3 * length (normalized_tags rest)"
              by (simp add: normalized_tags_Cons)
            from Cons.IH[OF k3 this Cons.prems(3), of s2]
            obtain msg t' where
              r: "link_tags fl link sid rest (s2, Suc (Suc (Suc n))) = Inl (SqliteError msg, t')"
              and c: "(\<exists>j. Suc (Suc (Suc n)) \<le> j \<and> j \<le> k \<and> fl j = Some msg) \<or> msg \<in> M"
              by blast
            from c have "(\<exists>j. n \<le> j \<and> j \<le> k \<and> fl j = Some msg) \<or> msg \<in> M"
              by (meson Suc_leD)
            with round n0 n1 n2 Inr p r show ?thesis by (simp add: Let_def del: link_tags.simps)
          qed
        qed
      qed
    qed
  qed
qed

lemma link_tags_no_fault:
  assumes link: "\<forall>tid s m. link sid tid s = Inl m \<longrightarrow> m \<in> M"
  shows "\<forall>j. n \<le> j \<and> j < n + 3 * length (normalized_tags tgs) \<longrightarrow> fl j = None \<Longrightarrow>
     (\<exists>s'. link_tags fl link sid tgs (s, n) = Inr ((), (s', n + 3 * length (normalized_tags tgs))))
     \<or> (\<exists>msg t'. msg \<in> M \<and> link_tags fl link sid tgs (s, n) = Inl (SqliteError msg, t'))"
proof (induction tgs arbitrary: s n)
  case Nil
  then show ?case by (simp add: normalized_tags_Nil)
next
  case (Cons raw rest)
  show ?case
  proof (cases "str_lower (str_strip raw) = []")
    case True
    with Cons.prems have "\<forall>j. n \<le> j \<and> j < n + 3 * length (normalized_tags rest) \<longrightarrow> fl j = None"
      by (simp add: normalized_tags_Cons)
    from Cons.IH[OF this, of s] True show ?thesis
      by (simp add: link_tags_blank normalized_tags_Cons)
  next
    case False
    let ?name = "str_lower (str_strip raw)"
    let ?s1 = "with_tag ?name s"
    note round = link_tags_round[OF False, of fl link sid rest s n]
    from False have len: "length (normalized_tags (raw # rest)) = Suc (length (normalized_tags rest))"
      by (simp add: normalized_tags_Cons)
    from Cons.prems len have n0: "fl n = None" and n1: "fl (Suc n) = None"
      and n2: "fl (Suc (Suc n)) = None" by simp_all
    from Cons.prems len
    have rest: "\<forall>j. Suc (Suc (Suc n)) \<le> j \<and> j < Suc (Suc (Suc n)) + 3 * length (normalized_tags rest)
        \<longrightarrow> fl j = None" by simp
    show ?thesis
    proof (cases "link sid (tag_id_of ?name ?s1) ?s1")
      case (Inl m)
      with link have "m \<in> M" by blast
      with round n0 n1 n2 Inl show ?thesis by (simp add: Let_def del: link_tags.simps)
    next
      case (Inr p)
      obtain u s2 where p: "p = (u, s2)" by (cases p)
      have e: "Suc (Suc (Suc n)) + 3 * length (normalized_tags rest)
          = n + 3 * length (normalized_tags (raw # rest))" by (simp add: len)
      from Cons.IH[OF rest, of s2]
      have ih: "(\<exists>s'. link_tags fl link sid rest (s2, Suc (Suc (Suc n)))
            = Inr ((), (s', n + 3 * length (normalized_tags (raw # rest)))))
          \<or> (\<exists>msg t'. msg \<in> M \<and> link_tags fl link sid rest (s2, Suc (Suc (Suc n)))
            = Inl (SqliteError msg, t'))"
        unfolding e .
      from round n0 n1 n2 Inr p
      have "link_tags fl link sid (raw # rest) (s, n)
          = link_tags fl link sid rest (s2, Suc (Suc (Suc n)))"
        by (simp add: Let_def del: link_tags.simps)
      with ih show ?thesis by (simp only:)
    qed
  qed
qed

lemma insert_or_ignore_link_no_error:
  "\<forall>tid s m. insert_or_ignore_link sid tid s = Inl m \<longrightarrow> m \<in> {}"
  by (simp add: insert_or_ignore_link_def)

lemma insert_link_error:
  "\<forall>tid s m. insert_link sid tid s = Inl m \<longrightarrow> m \<in> {unique_failed}"
  by (simp add: insert_link_def)

text \<open>The first fault at or before a given call.\<close>

lemma first_fault:
  fixes fl :: faults
  assumes "fl k \<noteq> None"
  obtains j msg where "j \<le> k" "fl j = Some msg" "\<forall>i<j. fl i = None"
proof -
  let ?j = "LEAST j. fl j \<noteq> None"
  have 1: "fl ?j \<noteq> None" using assms LeastI[of "\<lambda>j. fl j \<noteq> None" k] by simp
  have 2: "?j \<le> k" using assms Least_le[of "\<lambda>j. fl j \<noteq> None" k] by simp
  have 3: "\<forall>i<?j. fl i = None" using not_less_Least[of _ "\<lambda>j. fl j \<noteq> None"] by blast
  from 1 obtain msg where "fl ?j = Some msg" by blast
  with 2 3 that show thesis by blast
qed

section \<open>Transactions: lemmas and claims\<close>

lemma insert_snippet_eq:
  "insert_snippet d c l now s = Inr (next_snippet_id s, with_snippet d c l now s)"
  by (simp add: insert_snippet_def with_snippet_def next_snippet_id_def Let_def)

lemma delete_snippet_try_cases:
  "bindable (int sid) \<Longrightarrow> delete_snippet_try fl s sid =
     (if fl 0 = None \<and> find (\<lambda>r. r_id r = sid) (snippets s) \<noteq> None \<and> fl (Suc 0) = None
         \<and> fl (Suc (Suc 0)) = None \<and> fl (Suc (Suc (Suc 0))) = None
      then (deleted sid s, Inr True) else (s, Inr False))"
  by (simp add: delete_snippet_try_def execute_def select_snippet_def delete_links_def
      delete_snippet_row_def commit_def rollback_and_return_false_def deleted_def
      split: option.splits)

lemma add_snippet_try_cases:
  "add_snippet_try fl now s d c l tgs =
     (case fl 0 of
        Some msg \<Rightarrow> (s, Inl (PyException (''Failed to add snippet: '' @ msg)))
      | None \<Rightarrow>
          (case link_tags fl insert_or_ignore_link (next_snippet_id s) tgs
                  (with_snippet d c l now s, Suc 0) of
             Inl et \<Rightarrow> rollback_and_raise ''Failed to add snippet: '' s et
           | Inr (u, t2) \<Rightarrow>
               (case fl (snd t2) of
                  Some msg \<Rightarrow> (s, Inl (PyException (''Failed to add snippet: '' @ msg)))
                | None \<Rightarrow> (fst t2, Inr (next_snippet_id s)))))"
  by (simp add: add_snippet_try_def execute_def insert_snippet_eq commit_def
      rollback_and_raise_def split: option.splits sum.splits prod.splits)

lemma update_snippet_try_cases:
  "bindable (int sid) \<Longrightarrow> update_snippet_try fl s sid d c l tgs =
     (case fl 0 of
        Some msg \<Rightarrow> (s, Inl (PyException (''Failed to update snippet: '' @ msg)))
      | None \<Rightarrow>
        (case find (\<lambda>r. r_id r = sid) (snippets s) of
           None \<Rightarrow> (s, Inr False)
         | Some r \<Rightarrow>
           (case fl (Suc 0) of
              Some msg \<Rightarrow> (s, Inl (PyException (''Failed to update snippet: '' @ msg)))
            | None \<Rightarrow>
              (case fl (Suc (Suc 0)) of
                 Some msg \<Rightarrow> (s, Inl (PyException (''Failed to update snippet: '' @ msg)))
               | None \<Rightarrow>
                 (case link_tags fl insert_link sid tgs (rewritten sid d c l s, Suc (Suc (Suc 0))) of
                    Inl et \<Rightarrow> rollback_and_raise ''Failed to update snippet: '' s et
                  | Inr (u, t4) \<Rightarrow>
                      (case fl (snd t4) of
                         Some msg \<Rightarrow> (s, Inl (PyException (''Failed to update snippet: '' @ msg)))
                       | None \<Rightarrow> (fst t4, Inr True)))))))"
  by (simp add: update_snippet_try_def execute_def select_snippet_def update_snippet_row_def
      delete_links_def commit_def rollback_and_raise_def rewritten_def
      split: option.splits sum.splits prod.splits)


lemma add_snippet_try_fault:
  fixes fl :: faults
  assumes k: "k < 2 + 3 * length (normalized_tags tgs)" and f: "fl k \<noteq> None"
  shows "\<exists>j\<le>k. \<exists>msg. fl j = Some msg \<and>
     add_snippet_try fl now s d c l tgs = (s, Inl (PyException (''Failed to add snippet: '' @ msg)))"
proof -
  let ?m = "length (normalized_tags tgs)"
  from first_fault[where fl=fl and k=k, OF f] obtain j msg where
    j: "j \<le> k" "fl j = Some msg" "\<forall>i<j. fl i = None" by blast
  note cases = add_snippet_try_cases[of fl now s d c l tgs]
  show ?thesis
  proof (cases "j = 0")
    case True
    with j cases show ?thesis by auto
  next
    case False
    with j(3) have f0: "fl 0 = None" by simp
    show ?thesis
    proof (cases "j < Suc 0 + 3 * ?m")
      case True
      from False have "Suc 0 \<le> j" by simp
      from link_tags_fault[where link=insert_or_ignore_link and sid="next_snippet_id s" and M="{}"
          and fl=fl and s="with_snippet d c l now s" and n="Suc 0" and k=j and tgs=tgs,
          OF insert_or_ignore_link_no_error this True] j(2)
      obtain msg' t' j' where
        r: "link_tags fl insert_or_ignore_link (next_snippet_id s) tgs (with_snippet d c l now s, Suc 0)
            = Inl (SqliteError msg', t')"
        and j': "j' \<le> j" "fl j' = Some msg'"
        by auto
      from r f0 cases have "add_snippet_try fl now s d c l tgs
          = (s, Inl (PyException (''Failed to add snippet: '' @ msg')))"
        by (simp add: rollback_and_raise_def)
      with j' j(1) show ?thesis by (intro exI[of _ j']) auto
    next
      case nlt: False
      with j(1) k have je: "j = Suc 0 + 3 * ?m" by simp
      with j(3) have "\<forall>i. Suc 0 \<le> i \<and> i < Suc 0 + 3 * ?m \<longrightarrow> fl i = None" by simp
      from link_tags_no_fault[where link=insert_or_ignore_link and sid="next_snippet_id s" and M="{}"
          and fl=fl and s="with_snippet d c l now s" and n="Suc 0" and tgs=tgs,
          OF insert_or_ignore_link_no_error this]
      obtain s' where "link_tags fl insert_or_ignore_link (next_snippet_id s) tgs
          (with_snippet d c l now s, Suc 0) = Inr ((), (s', Suc 0 + 3 * ?m))"
        by auto
      with f0 cases je j(2) have "add_snippet_try fl now s d c l tgs
          = (s, Inl (PyException (''Failed to add snippet: '' @ msg)))"
        by simp
      with j show ?thesis by auto
    qed
  qed
qed

lemma update_snippet_try_unbindable:
  "\<not> bindable (int sid) \<Longrightarrow> update_snippet_try fl s sid d c l tgs = (s, Inl OverflowError)"
  by (simp add: update_snippet_try_def)

lemma delete_snippet_try_unbindable:
  "\<not> bindable (int sid) \<Longrightarrow> delete_snippet_try fl s sid = (s, Inl OverflowError)"
  by (simp add: delete_snippet_try_def)

lemma update_snippet_try_fault:
  fixes fl :: faults
  assumes b: "bindable (int sid)"
    and ex: "find (\<lambda>r. r_id r = sid) (snippets s) \<noteq> None"
    and k: "k < 4 + 3 * length (normalized_tags tgs)" and f: "fl k \<noteq> None"
  shows "\<exists>msg. ((\<exists>j\<le>k. fl j = Some msg) \<or> msg = unique_failed) \<and>
     update_snippet_try fl s sid d c l tgs
       = (s, Inl (PyException (''Failed to update snippet: '' @ msg)))"
proof -
  let ?m = "length (normalized_tags tgs)"
  let ?n = "Suc (Suc (Suc 0))"
  from ex obtain r where r: "find (\<lambda>r. r_id r = sid) (snippets s) = Some r" by blast
  from first_fault[where fl=fl and k=k, OF f] obtain j msg where
    j: "j \<le> k" "fl j = Some msg" "\<forall>i<j. fl i = None" by blast
  note cases = update_snippet_try_cases[OF b, of fl s d c l tgs]
  consider "j = 0" | "j = Suc 0" | "j = Suc (Suc 0)" | "?n \<le> j" by arith
  then show ?thesis
  proof cases
    case 1
    with j cases have "update_snippet_try fl s sid d c l tgs
        = (s, Inl (PyException (''Failed to update snippet: '' @ msg)))" by simp
    with j show ?thesis by blast
  next
    case 2
    with j cases r have "update_snippet_try fl s sid d c l tgs
        = (s, Inl (PyException (''Failed to update snippet: '' @ msg)))" by simp
    with j show ?thesis by blast
  next
    case 3
    with j cases r have "update_snippet_try fl s sid d c l tgs
        = (s, Inl (PyException (''Failed to update snippet: '' @ msg)))" by simp
    with j show ?thesis by blast
  next
    case 4
    with j(3) have f0: "fl 0 = None" "fl (Suc 0) = None" "fl (Suc (Suc 0)) = None" by simp_all
    show ?thesis
    proof (cases "j < ?n + 3 * ?m")
      case True
      from link_tags_fault[where link=insert_link and sid=sid and M="{unique_failed}"
          and fl=fl and s="rewritten sid d c l s" and n="?n" and k=j and tgs=tgs,
          OF insert_link_error 4 True] j(2)
      obtain msg' t' where
        res: "link_tags fl insert_link sid tgs (rewritten sid d c l s, ?n) = Inl (SqliteError msg', t')"
        and c: "(\<exists>j'. j' \<le> j \<and> fl j' = Some msg') \<or> msg' = unique_failed"
        by auto
      from res f0 r cases have "update_snippet_try fl s sid d c l tgs
          = (s, Inl (PyException (''Failed to update snippet: '' @ msg')))"
        by (simp add: rollback_and_raise_def)
      moreover from c j(1) have "(\<exists>j'\<le>k. fl j' = Some msg') \<or> msg' = unique_failed"
        by (meson le_trans)
      ultimately show ?thesis by blast
    next
      case False
      with j(1) k have je: "j = ?n + 3 * ?m" by simp
      with j(3) have "\<forall>i. ?n \<le> i \<and> i < ?n + 3 * ?m \<longrightarrow> fl i = None" by simp
      from link_tags_no_fault[where link=insert_link and sid=sid and M="{unique_failed}"
          and fl=fl and s="rewritten sid d c l s" and n="?n" and tgs=tgs,
          OF insert_link_error this]
      consider s' where "link_tags fl insert_link sid tgs (rewritten sid d c l s, ?n)
            = Inr ((), (s', ?n + 3 * ?m))"
        | t' where "link_tags fl insert_link sid tgs (rewritten sid d c l s, ?n)
            = Inl (SqliteError unique_failed, t')"
        by auto
      then show ?thesis
      proof cases
        case 1
        with f0 r cases je j(2) have "update_snippet_try fl s sid d c l tgs
            = (s, Inl (PyException (''Failed to update snippet: '' @ msg)))"
          by simp
        with j show ?thesis by blast
      next
        case 2
        with f0 r cases have "update_snippet_try fl s sid d c l tgs
            = (s, Inl (PyException (''Failed to update snippet: '' @ unique_failed)))"
          by (simp add: rollback_and_raise_def)
        then show ?thesis by blast
      qed
    qed
  qed
qed

lemma delete_snippet_try_fault:
  fixes fl :: faults
  assumes "k < 4" "fl k \<noteq> None" and b: "bindable (int sid)"
  shows "delete_snippet_try fl s sid = (s, Inr False)"
proof -
  from assms(1) have "k = 0 \<or> k = Suc 0 \<or> k = Suc (Suc 0) \<or> k = Suc (Suc (Suc 0))" by arith
  with assms(2) have "\<not> (fl 0 = None \<and> fl (Suc 0) = None \<and> fl (Suc (Suc 0)) = None
      \<and> fl (Suc (Suc (Suc 0))) = None)" by auto
  then show ?thesis by (auto simp: delete_snippet_try_cases[OF b])
qed


text \<open>
  Claim C8. For an id that can be bound to a statement (one that fits 64 bits): an engine
  error at any call of \<open>delete_snippet\<close> (its four calls are the select, the two deletes
  and the commit) leaves the store as it was and makes the operation return \<open>False\<close>, and
  \<open>delete_snippet\<close> returns a boolean whatever the engine does. An engine error at any
  call of \<open>add_snippet\<close> or \<open>update_snippet\<close> leaves the store as it was and raises
  \<open>Exception\<close> whose message ends with the message of the error that was raised first
  (for \<open>update_snippet\<close> that may be the failed uniqueness constraint of its own link
  statement). An id that cannot be bound makes \<open>delete_snippet\<close>, when its first
  call meets no engine error, raise \<open>OverflowError\<close>, which is no engine error and is
  not caught; the store is as it was.
\<close>

theorem engine_errors_roll_back:
  fixes fl :: faults
  shows
   "(bindable (int sid) \<longrightarrow>
       (\<forall>k<4. fl k \<noteq> None \<longrightarrow> delete_snippet_try fl s sid = (s, Inr False)))
  \<and> (bindable (int sid) \<longrightarrow> (\<exists>b. snd (delete_snippet_try fl s sid) = Inr b))
  \<and> (\<not> bindable (int sid) \<longrightarrow> fl 0 = None \<longrightarrow>
       delete_snippet_try fl s sid = (s, Inl OverflowError))
  \<and> (\<forall>k < 2 + 3 * length (normalized_tags tgs). fl k \<noteq> None \<longrightarrow>
       (\<exists>j\<le>k. \<exists>msg. fl j = Some msg \<and>
          add_snippet_try fl now s d c l tgs
            = (s, Inl (PyException (''Failed to add snippet: '' @ msg)))))
  \<and> (bindable (int sid) \<longrightarrow> find (\<lambda>r. r_id r = sid) (snippets s) \<noteq> None \<longrightarrow>
       (\<forall>k < 4 + 3 * length (normalized_tags tgs). fl k \<noteq> None \<longrightarrow>
          (\<exists>msg. ((\<exists>j\<le>k. fl j = Some msg) \<or> msg = unique_failed) \<and>
             update_snippet_try fl s sid d c l tgs
               = (s, Inl (PyException (''Failed to update snippet: '' @ msg))))))
  \<and> (bindable (int sid) \<longrightarrow>
       (\<forall>msg. fl 0 = Some msg \<longrightarrow>
          update_snippet_try fl s sid d c l tgs
            = (s, Inl (PyException (''Failed to update snippet: '' @ msg)))))"
proof (intro conjI allI impI)
  fix k assume "bindable (int sid)" "k < 4" "fl k \<noteq> None"
  then show "delete_snippet_try fl s sid = (s, Inr False)"
    using delete_snippet_try_fault by blast
next
  assume b: "bindable (int sid)"
  show "\<exists>b. snd (delete_snippet_try fl s sid) = Inr b"
  proof (cases "fl 0 = None \<and> find (\<lambda>r. r_id r = sid) (snippets s) \<noteq> None \<and> fl (Suc 0) = None
         \<and> fl (Suc (Suc 0)) = None \<and> fl (Suc (Suc (Suc 0))) = None")
    case True
    then have "delete_snippet_try fl s sid = (deleted sid s, Inr True)"
      by (simp add: delete_snippet_try_cases[OF b])
    then show ?thesis by (intro exI[of _ True]) simp
  next
    case False
    then have "delete_snippet_try fl s sid = (s, Inr False)"
      by (simp add: delete_snippet_try_cases[OF b])
    then show ?thesis by (intro exI[of _ False]) simp
  qed
next
  assume "\<not> bindable (int sid)" "fl 0 = None"
  then show "delete_snippet_try fl s sid = (s, Inl OverflowError)"
    by (simp add: delete_snippet_try_unbindable)
next
  fix k assume "k < 2 + 3 * length (normalized_tags tgs)" "fl k \<noteq> None"
  then show "\<exists>j\<le>k. \<exists>msg. fl j = Some msg \<and>
          add_snippet_try fl now s d c l tgs
            = (s, Inl (PyException (''Failed to add snippet: '' @ msg)))"
    by (rule add_snippet_try_fault)
next
  fix k assume "bindable (int sid)" "find (\<lambda>r. r_id r = sid) (snippets s) \<noteq> None"
    "k < 4 + 3 * length (normalized_tags tgs)" "fl k \<noteq> None"
  then show "\<exists>msg. ((\<exists>j\<le>k. fl j = Some msg) \<or> msg = unique_failed) \<and>
             update_snippet_try fl s sid d c l tgs
               = (s, Inl (PyException (''Failed to update snippet: '' @ msg)))"
    by (rule update_snippet_try_fault)
next
  fix msg assume "bindable (int sid)" "fl 0 = Some msg"
  then show "update_snippet_try fl s sid d c l tgs
         = (s, Inl (PyException (''Failed to update snippet: '' @ msg)))"
    by (simp add: update_snippet_try_cases)
qed

theorem engine_errors_roll_back_witness:
  "bindable (int 1) \<and> (3::nat) < 4
   \<and> delete_snippet_try (\<lambda>k. if k = 3 then Some ''disk I/O error'' else None)
        (with_snippet ''d'' ''c'' None 7 (empty_store True True)) 1
      = (with_snippet ''d'' ''c'' None 7 (empty_store True True), Inr False)
   \<and> delete_snippet_try no_faults (with_snippet ''d'' ''c'' None 7 (empty_store True True)) 1
      = (empty_store True True\<lparr>snippets_seq := 1\<rparr>, Inr True)
   \<and> \<not> bindable (int 9223372036854775808) \<and> no_faults 0 = None
   \<and> delete_snippet_try no_faults (with_snippet ''d'' ''c'' None 7 (empty_store True True))
        9223372036854775808
      = (with_snippet ''d'' ''c'' None 7 (empty_store True True), Inl OverflowError)"
proof -
  let ?fl = "\<lambda>k::nat. if k = 3 then Some ''disk I/O error'' else None"
  let ?s = "with_snippet ''d'' ''c'' None 7 (empty_store True True)"
  have b: "bindable (int 1)" by (simp add: bindable_def)
  have nb: "\<not> bindable (int 9223372036854775808)" by (simp add: bindable_def)
  have nf: "no_faults 0 = None" by (simp add: no_faults_def)
  have "delete_snippet_try ?fl ?s 1 = (?s, Inr False)"
    using engine_errors_roll_back[of 1 ?fl ?s, THEN conjunct1, rule_format, OF b, of 3] by simp
  moreover have "delete_snippet_try no_faults ?s 1 = (empty_store True True\<lparr>snippets_seq := 1\<rparr>, Inr True)"
    by code_simp
  moreover have "delete_snippet_try no_faults ?s 9223372036854775808 = (?s, Inl OverflowError)"
    using engine_errors_roll_back[of 9223372036854775808 no_faults ?s, THEN conjunct2, THEN conjunct2,
        THEN conjunct1] nb nf by blast
  ultimately show ?thesis using b nb nf by simp
qed

section \<open>Duplicate tag names\<close>

lemma normalize_a: "str_lower (str_strip ''a'') = ''a''"
  by code_simp

lemma normalize_A: "str_lower (str_strip '' A '') = ''a''"
  by code_simp

text \<open>
  Claim C2. The claim fails for \<open>update_snippet\<close>. Its loop links with a plain
  \<open>INSERT INTO snippet_tags\<close> (line 269) where the loop of \<open>add_snippet\<close> has
  \<open>INSERT OR IGNORE\<close> (line 213). On a store that holds snippet 1, updating it with the
  tags \<open>'a'\<close> and \<open>' A '\<close> (the same name once normalized) either fails, when the link
  table has a uniqueness constraint: the transaction is rolled back and the exception
  names the constraint; or, when it has none, succeeds and leaves two link rows for the
  pair. \<open>add_snippet\<close> with the same tags succeeds with one link row.
\<close>

theorem update_duplicate_tags_fails:
  "update_snippet_try no_faults (with_snippet ''d'' ''c'' None 7 (empty_store True False)) 1
        ''d2'' ''c2'' None [''a'', '' A '']
      = (with_snippet ''d'' ''c'' None 7 (empty_store True False),
         Inl (PyException (''Failed to update snippet: '' @
           ''UNIQUE constraint failed: snippet_tags.snippet_id, snippet_tags.tag_id'')))
   \<and> update_snippet_try no_faults (with_snippet ''d'' ''c'' None 7 (empty_store False False)) 1
        ''d2'' ''c2'' None [''a'', '' A '']
      = (\<lparr>snippets = [\<lparr>r_id = 1, r_description = ''d2'', r_content = ''c2'', r_language = None,
            r_created_at = 7, r_updated_at = 7\<rparr>], tags = [(1, ''a'')],
          snippet_tags = [(1, 1), (1, 1)], snippets_fts = [], snippets_seq = 1,
          links_unique = False, fts_triggers = False\<rparr>, Inr True)
   \<and> add_snippet_try no_faults 7 (empty_store True False) ''d'' ''c'' None [''a'', '' A '']
      = (\<lparr>snippets = [\<lparr>r_id = 1, r_description = ''d'', r_content = ''c'', r_language = None,
            r_created_at = 7, r_updated_at = 7\<rparr>], tags = [(1, ''a'')],
          snippet_tags = [(1, 1)], snippets_fts = [], snippets_seq = 1,
          links_unique = True, fts_triggers = False\<rparr>, Inr 1)"
  by code_simp

section \<open>The effect of the tag loop and of an update\<close>

lemma fts_sync_fields [simp]:
  "snippets (fts_sync i s) = snippets s" "tags (fts_sync i s) = tags s"
  "snippet_tags (fts_sync i s) = snippet_tags s" "snippets_seq (fts_sync i s) = snippets_seq s"
  "links_unique (fts_sync i s) = links_unique s" "fts_triggers (fts_sync i s) = fts_triggers s"
  by (simp_all add: fts_sync_def)

lemma links_only_insert_or_ignore_link: "links_only insert_or_ignore_link"
  unfolding links_only_def insert_or_ignore_link_def
  by (intro allI impI) (simp split: if_splits, auto)

lemma links_only_insert_link: "links_only insert_link"
  unfolding links_only_def insert_link_def
  by (intro allI impI) (simp split: if_splits, auto)

lemma with_tag_fields [simp]:
  "snippets (with_tag name s) = snippets s" "snippet_tags (with_tag name s) = snippet_tags s"
  "snippets_seq (with_tag name s) = snippets_seq s" "links_unique (with_tag name s) = links_unique s"
  "fts_triggers (with_tag name s) = fts_triggers s" "snippets_fts (with_tag name s) = snippets_fts s"
  by (simp_all add: with_tag_def insert_or_ignore_tag_def)

lemma with_tag_tags:
  "tags (with_tag name s) =
     (if name \<in> snd ` set (tags s) then tags s
      else tags s @ [(Suc (fold max (map fst (tags s)) 0), name)])"
  by (simp add: with_tag_def insert_or_ignore_tag_def)

text \<open>A successful round of the loop.\<close>

lemma link_tags_round_Inr:
  assumes nb: "str_lower (str_strip raw) \<noteq> []"
    and r: "link_tags fl link sid (raw # rest) (s, n) = Inr ((), t')"
  shows "\<exists>s2. link sid (tag_id_of (str_lower (str_strip raw)) (with_tag (str_lower (str_strip raw)) s))
               (with_tag (str_lower (str_strip raw)) s) = Inr ((), s2)
            \<and> link_tags fl link sid rest (s2, Suc (Suc (Suc n))) = Inr ((), t')"
proof -
  note round = link_tags_round[OF nb, of fl link sid rest s n]
  from r round show ?thesis
    by (simp add: Let_def del: link_tags.simps split: option.splits sum.splits prod.splits)
qed

text \<open>The loop never raises anything but an engine error.\<close>

lemma link_tags_Inl:
  "link_tags fl link sid tgs (s, n) = Inl (e, t') \<Longrightarrow> \<exists>msg. e = SqliteError msg"
proof (induction tgs arbitrary: s n)
  case Nil
  then show ?case by simp
next
  case (Cons raw rest)
  show ?case
  proof (cases "str_lower (str_strip raw) = []")
    case True
    with Cons show ?thesis by (simp add: link_tags_blank)
  next
    case False
    note round = link_tags_round[OF False, of fl link sid rest s n]
    from Cons.prems round Cons.IH show ?thesis
      by (simp add: Let_def del: link_tags.simps split: option.splits sum.splits prod.splits) blast+
  qed
qed


lemma find_append_first:
  "find P (xs @ ys) = (case find P xs of None \<Rightarrow> find P ys | Some x \<Rightarrow> Some x)"
  by (induction xs) simp_all

lemma tag_id_of_stable:
  assumes "tags s' = tags s @ ys" "name \<in> snd ` set (tags s)"
  shows "tag_id_of name s' = tag_id_of name s"
proof -
  from find_tag_Some[OF assms(2)] obtain tag where "find (\<lambda>tag. snd tag = name) (tags s) = Some tag"
    by blast
  with assms(1) show ?thesis by (simp add: tag_id_of_def find_append_first)
qed

lemma tag_id_of_in_tags:
  assumes "name \<in> snd ` set (tags s)"
  shows "(tag_id_of name s, name) \<in> set (tags s)"
proof -
  from find_tag_Some[OF assms] obtain tag where f: "find (\<lambda>tag. snd tag = name) (tags s) = Some tag"
    by blast
  then have "tag \<in> set (tags s)" "snd tag = name"
    by (auto simp: find_Some_iff)
  with f show ?thesis by (cases tag) (simp add: tag_id_of_def)
qed

lemma with_tag_extends: "\<exists>zs. tags (with_tag name s) = tags s @ zs"
  by (simp add: with_tag_tags)

text \<open>What a successful run of the tag loop has done to the store.\<close>

lemma link_tags_effect:
  assumes lo: "links_only link"
  shows "link_tags fl link sid tgs (s, n) = Inr ((), (s', n')) \<Longrightarrow>
     snippets s' = snippets s \<and> snippets_seq s' = snippets_seq s \<and>
     links_unique s' = links_unique s \<and> fts_triggers s' = fts_triggers s \<and>
     (\<exists>ys. tags s' = tags s @ ys) \<and>
     (\<exists>ls. snippet_tags s' = snippet_tags s @ ls \<and> fst ` set ls \<subseteq> {sid}) \<and>
     set (snippet_tags s') =
       set (snippet_tags s) \<union> (\<lambda>name. (sid, tag_id_of name s')) ` set (normalized_tags tgs) \<and>
     set (normalized_tags tgs) \<subseteq> snd ` set (tags s')"
proof (induction tgs arbitrary: s n)
  case Nil
  then show ?case by (simp add: normalized_tags_Nil)
next
  case (Cons raw rest)
  show ?case
  proof (cases "str_lower (str_strip raw) = []")
    case True
    with Cons.prems have "link_tags fl link sid rest (s, n) = Inr ((), (s', n'))"
      by (simp add: link_tags_blank)
    from Cons.IH[OF this] True show ?thesis by (simp add: normalized_tags_Cons)
  next
    case False
    let ?name = "str_lower (str_strip raw)"
    let ?s1 = "with_tag ?name s"
    let ?tid = "tag_id_of ?name ?s1"
    from link_tags_round_Inr[OF False Cons.prems] obtain s2 where
      l: "link sid ?tid ?s1 = Inr ((), s2)"
      and r: "link_tags fl link sid rest (s2, Suc (Suc (Suc n))) = Inr ((), (s', n'))"
      by blast
    from lo l have s2: "snippet_tags s2 = snippet_tags ?s1 \<or> snippet_tags s2 = snippet_tags ?s1 @ [(sid, ?tid)]"
      "(sid, ?tid) \<in> set (snippet_tags s2)" "tags s2 = tags ?s1" "snippets s2 = snippets ?s1"
      "snippets_seq s2 = snippets_seq ?s1" "links_unique s2 = links_unique ?s1"
      "fts_triggers s2 = fts_triggers ?s1"
      unfolding links_only_def by blast+
    from Cons.IH[OF r] have ih:
      "snippets s' = snippets s2" "snippets_seq s' = snippets_seq s2"
      "links_unique s' = links_unique s2" "fts_triggers s' = fts_triggers s2"
      "\<exists>ys. tags s' = tags s2 @ ys"
      "\<exists>ls. snippet_tags s' = snippet_tags s2 @ ls \<and> fst ` set ls \<subseteq> {sid}"
      "set (snippet_tags s') =
         set (snippet_tags s2) \<union> (\<lambda>name. (sid, tag_id_of name s')) ` set (normalized_tags rest)"
      "set (normalized_tags rest) \<subseteq> snd ` set (tags s')"
      by blast+
    from ih(5) obtain ys where ys: "tags s' = tags s2 @ ys" by blast
    from with_tag_extends[of ?name s] obtain zs where zs: "tags ?s1 = tags s @ zs" by blast
    have A: "snippets s' = snippets s \<and> snippets_seq s' = snippets_seq s \<and>
        links_unique s' = links_unique s \<and> fts_triggers s' = fts_triggers s"
      using ih(1-4) s2(4-7) by simp
    have B: "\<exists>ys. tags s' = tags s @ ys"
      using ys zs s2(3) by simp
    from ih(6) obtain ls where ls: "snippet_tags s' = snippet_tags s2 @ ls" "fst ` set ls \<subseteq> {sid}"
      by blast
    have C: "\<exists>ls. snippet_tags s' = snippet_tags s @ ls \<and> fst ` set ls \<subseteq> {sid}"
    proof (cases "snippet_tags s2 = snippet_tags ?s1")
      case True
      with ls show ?thesis by simp
    next
      case False
      with s2(1) have "snippet_tags s2 = snippet_tags s @ [(sid, ?tid)]" by simp
      with ls have "snippet_tags s' = snippet_tags s @ ((sid, ?tid) # ls)"
        "fst ` set ((sid, ?tid) # ls) \<subseteq> {sid}" by simp_all
      then show ?thesis by blast
    qed
    have name_in: "?name \<in> snd ` set (tags ?s1)" by (rule name_in_with_tag)
    have stable: "tag_id_of ?name s' = ?tid"
      using tag_id_of_stable[of s' ?s1 ys ?name] ys s2(3) name_in by simp
    have "set (snippet_tags s2) = insert (sid, ?tid) (set (snippet_tags s))"
      using s2(1,2) by auto
    with ih(7) stable False have D: "set (snippet_tags s') =
       set (snippet_tags s) \<union> (\<lambda>name. (sid, tag_id_of name s')) ` set (normalized_tags (raw # rest))"
      by (simp add: normalized_tags_Cons)
    from name_in ys s2(3) have "?name \<in> snd ` set (tags s')" by auto
    with ih(8) False have E: "set (normalized_tags (raw # rest)) \<subseteq> snd ` set (tags s')"
      by (simp add: normalized_tags_Cons)
    from A B C D E show ?thesis by blast
  qed
qed


lemma rewritten_fields:
  "snippets (rewritten sid d c l s) =
     map (\<lambda>r. if r_id r = sid then r\<lparr>r_description := d, r_content := c, r_language := l\<rparr> else r)
       (snippets s)"
  "snippet_tags (rewritten sid d c l s) = filter (\<lambda>link. fst link \<noteq> sid) (snippet_tags s)"
  "tags (rewritten sid d c l s) = tags s"
  "snippets_seq (rewritten sid d c l s) = snippets_seq s"
  by (simp_all add: rewritten_def update_snippet_row_def delete_links_def)

text \<open>
  Claim C7. A successful update rewrites the description, the content and the language of
  the row with the given id and nothing else in the snippet table: every row keeps its
  id, its created timestamp and its updated timestamp (the update statement does not
  touch it); the links of the other snippets are as before; the links of
  the updated snippet are those to the given tags (normalized), which are all in the tag
  table. An update that does not succeed leaves the store as it was.
\<close>

theorem update_frame:
  assumes "update_snippet_try fl s sid d c l tgs = (s', res)"
  shows "(res = Inr True \<longrightarrow>
            snippets s' =
              map (\<lambda>r. if r_id r = sid
                        then r\<lparr>r_description := d, r_content := c, r_language := l\<rparr> else r)
                (snippets s)
          \<and> map r_id (snippets s') = map r_id (snippets s)
          \<and> map r_created_at (snippets s') = map r_created_at (snippets s)
          \<and> map r_updated_at (snippets s') = map r_updated_at (snippets s)
          \<and> filter (\<lambda>link. fst link \<noteq> sid) (snippet_tags s')
              = filter (\<lambda>link. fst link \<noteq> sid) (snippet_tags s)
          \<and> {tid. (sid, tid) \<in> set (snippet_tags s')}
              = (\<lambda>name. tag_id_of name s') ` set (normalized_tags tgs)
          \<and> (\<forall>name\<in>set (normalized_tags tgs). (tag_id_of name s', name) \<in> set (tags s'))
          \<and> snippets_seq s' = snippets_seq s)
       \<and> (res \<noteq> Inr True \<longrightarrow> s' = s)"
proof (intro conjI impI)
  assume "res \<noteq> Inr True"
  show "s' = s"
  proof (cases "bindable (int sid)")
    case False
    with assms show ?thesis by (simp add: update_snippet_try_unbindable)
  next
    case True
    from assms \<open>res \<noteq> Inr True\<close> show ?thesis
      unfolding update_snippet_try_cases[OF True]
      by (auto simp: rollback_and_raise_def split: option.splits sum.splits prod.splits exn.splits
          dest: link_tags_Inl)
  qed
next
  assume ok: "res = Inr True"
  let ?s0 = "rewritten sid d c l s"
  from assms ok have b: "bindable (int sid)"
    by (cases "bindable (int sid)") (simp_all add: update_snippet_try_unbindable)
  from assms ok obtain n' where
    r: "link_tags fl insert_link sid tgs (?s0, Suc (Suc (Suc 0))) = Inr ((), (s', n'))"
    unfolding update_snippet_try_cases[OF b]
    by (auto simp: rollback_and_raise_def split: option.splits sum.splits prod.splits exn.splits)
  from link_tags_effect[OF links_only_insert_link r] have e:
    "snippets s' = snippets ?s0" "snippets_seq s' = snippets_seq ?s0"
    "\<exists>ls. snippet_tags s' = snippet_tags ?s0 @ ls \<and> fst ` set ls \<subseteq> {sid}"
    "set (snippet_tags s') =
       set (snippet_tags ?s0) \<union> (\<lambda>name. (sid, tag_id_of name s')) ` set (normalized_tags tgs)"
    "set (normalized_tags tgs) \<subseteq> snd ` set (tags s')"
    by blast+
  show rows: "snippets s' =
      map (\<lambda>r. if r_id r = sid then r\<lparr>r_description := d, r_content := c, r_language := l\<rparr> else r)
        (snippets s)"
    using e(1) by (simp add: rewritten_fields)
  show "map r_id (snippets s') = map r_id (snippets s)"
    unfolding rows by (induction "snippets s") auto
  show "map r_created_at (snippets s') = map r_created_at (snippets s)"
    unfolding rows by (simp add: comp_def if_distrib[of r_created_at])
  show "map r_updated_at (snippets s') = map r_updated_at (snippets s)"
    unfolding rows by (simp add: comp_def if_distrib[of r_updated_at])
  from e(3) obtain ls where ls: "snippet_tags s' = snippet_tags ?s0 @ ls" "fst ` set ls \<subseteq> {sid}"
    by blast
  from ls(2) have "filter (\<lambda>link. fst link \<noteq> sid) ls = []"
    by (auto simp: filter_empty_conv)
  with ls(1) show "filter (\<lambda>link. fst link \<noteq> sid) (snippet_tags s')
      = filter (\<lambda>link. fst link \<noteq> sid) (snippet_tags s)"
    by (simp add: rewritten_fields)
  show "{tid. (sid, tid) \<in> set (snippet_tags s')}
      = (\<lambda>name. tag_id_of name s') ` set (normalized_tags tgs)"
    unfolding e(4) by (auto simp: rewritten_fields)
  show "\<forall>name\<in>set (normalized_tags tgs). (tag_id_of name s', name) \<in> set (tags s')"
    using e(5) tag_id_of_in_tags by blast
  show "snippets_seq s' = snippets_seq s"
    using e(2) by (simp add: rewritten_fields)
qed

theorem update_frame_witness:
  "update_snippet_try no_faults
       (fst (add_snippet_try no_faults 7 (empty_store True False) ''d'' ''c'' None [''old''])) 1
       ''d2'' ''c2'' (Some ''py'') [''New'']
     = (\<lparr>snippets = [\<lparr>r_id = 1, r_description = ''d2'', r_content = ''c2'',
            r_language = Some ''py'', r_created_at = 7, r_updated_at = 7\<rparr>],
         tags = [(1, ''old''), (2, ''new'')], snippet_tags = [(1, 2)], snippets_fts = [],
         snippets_seq = 1, links_unique = True, fts_triggers = False\<rparr>, Inr True)
   \<and> map r_updated_at (snippets (fst (update_snippet_try no_faults
       (fst (add_snippet_try no_faults 7 (empty_store True False) ''d'' ''c'' None [''old''])) 1
       ''d2'' ''c2'' (Some ''py'') [''New'']))) = [7]"
proof -
  let ?s = "fst (add_snippet_try no_faults 7 (empty_store True False) ''d'' ''c'' None [''old''])"
  let ?s' = "\<lparr>snippets = [\<lparr>r_id = 1, r_description = ''d2'', r_content = ''c2'',
            r_language = Some ''py'', r_created_at = 7, r_updated_at = 7\<rparr>],
         tags = [(1, ''old''), (2, ''new'')], snippet_tags = [(1, 2)], snippets_fts = [],
         snippets_seq = 1, links_unique = True, fts_triggers = False\<rparr>"
  have s: "map r_updated_at (snippets ?s) = [7]" by code_simp
  have ev: "update_snippet_try no_faults ?s 1 ''d2'' ''c2'' (Some ''py'') [''New''] = (?s', Inr True)"
    by code_simp
  from update_frame[OF ev] have "map r_updated_at (snippets ?s') = map r_updated_at (snippets ?s)"
    by blast
  with s ev show ?thesis by simp
qed

section \<open>The fallback search\<close>

lemma starts_with_fold_iff:
  "starts_with_fold q t \<longleftrightarrow> (\<exists>v. map like_fold t = map like_fold q @ v)"
proof (induction q t rule: starts_with_fold.induct)
  case (1 t)
  then show ?case by simp
next
  case (2 p ps)
  then show ?case by simp
next
  case (3 p ps c cs)
  then show ?case by auto
qed

lemma contains_fold_iff:
  "contains_fold q t \<longleftrightarrow> (\<exists>u v. map like_fold t = u @ map like_fold q @ v)"
proof (induction t)
  case Nil
  then show ?case by (cases q) auto
next
  case (Cons c cs)
  show ?case
  proof
    assume "contains_fold q (c # cs)"
    then consider "starts_with_fold q (c # cs)" | "contains_fold q cs" by auto
    then show "\<exists>u v. map like_fold (c # cs) = u @ map like_fold q @ v"
    proof cases
      case 1
      then obtain v where "map like_fold (c # cs) = map like_fold q @ v"
        by (auto simp: starts_with_fold_iff)
      then have "map like_fold (c # cs) = [] @ map like_fold q @ v" by simp
      then show ?thesis by blast
    next
      case 2
      with Cons obtain u v where "map like_fold cs = u @ map like_fold q @ v" by blast
      then have "map like_fold (c # cs) = (like_fold c # u) @ map like_fold q @ v" by simp
      then show ?thesis by blast
    qed
  next
    assume "\<exists>u v. map like_fold (c # cs) = u @ map like_fold q @ v"
    then obtain u v where uv: "map like_fold (c # cs) = u @ map like_fold q @ v" by blast
    show "contains_fold q (c # cs)"
    proof (cases u)
      case Nil
      with uv have "starts_with_fold q (c # cs)" by (auto simp: starts_with_fold_iff)
      then show ?thesis by simp
    next
      case (Cons a u')
      with uv have "map like_fold cs = u' @ map like_fold q @ v" by simp
      with Cons.IH have "contains_fold q cs" by blast
      then show ?thesis by simp
    qed
  qed
qed






lemma set_newest_first [simp]: "set (newest_first rows) = set rows"
  by (simp add: newest_first_def)

lemma length_newest_first [simp]: "length (newest_first rows) = length rows"
  by (simp add: newest_first_def)







section \<open>The prepared full-text query\<close>





end
